theory Spec2Isabelle
  imports Complex_Main
begin

section \<open>Data model of server.py\<close>

text \<open>
  The server keeps two module-level dictionaries, \<open>sessions\<close> and \<open>pdf_cache\<close>, and a
  directory \<open>temp_pages\<close> with one sub-directory per session. Handlers mutate them and
  emit Socket.IO events. The model threads one record \<open>server\<close> through every handler.

  Payloads are Python dict literals; they are kept as association lists in the order the
  source writes the keys, so that the set of fields of a payload can be read off.
\<close>

type_synonym bytes = "nat list"

datatype json =
    JNone
  | JBool bool
  | JInt int
  | JFloat real
  | JStr string
  | JList "json list"
  | JDict "(string \<times> json) list"

text \<open>A PIL image or a fitz pixmap: its pixel size and its samples.\<close>

record image =
  img_width :: int
  img_height :: int
  img_samples :: bytes

text \<open>
  An opened fitz document: \<open>doc.page_count\<close>, \<open>doc.metadata\<close> (which may be \<open>None\<close>) and a
  handle that tells two opened documents apart.
\<close>

record fitz_doc =
  doc_handle :: nat
  page_count :: int
  doc_metadata :: "(string \<times> json) list option"

text \<open>The dict built by \<open>load_pdf\<close> (server.py, lines 64-75).\<close>

record pdf_info =
  document :: fitz_doc
  total_pages :: int
  path :: string
  metadata :: "(string \<times> json) list"

text \<open>The dict returned by \<open>render_page\<close> (server.py, lines 111-118).\<close>

record page_data =
  page_num :: int
  width :: int
  height :: int
  image_data :: bytes
  image_base64 :: string
  timestamp :: real

text \<open>The dict installed by \<open>handle_connect\<close> (server.py, lines 264-268).\<close>

record session =
  sid :: string
  current_pdf :: "string option"
  last_activity :: real

text \<open>
  The mutable world of the process. \<open>sessions\<close> is a Python dict, whose iteration order is
  insertion order: an association list. \<open>temp_pages\<close> maps the name of a session directory
  under \<open>TEMP_DIR\<close> to its files. \<open>emitted\<close> is the sequence of events sent to the client.
  \<open>opened\<close> and \<open>render_calls\<close> record the calls of \<open>fitz.open\<close> and of \<open>render_page\<close>, so
  that "the file is not opened again" and "the renderer is not invoked" can be stated.
\<close>

record server =
  sessions :: "(string \<times> session) list"
  pdf_cache :: "string \<rightharpoonup> pdf_info"
  temp_pages :: "string \<rightharpoonup> (string \<rightharpoonup> bytes)"
  emitted :: "(string \<times> json) list"
  opened :: "string list"
  render_calls :: "(nat \<times> int \<times> string) list"

text \<open>
  What the handlers read from outside the process during one run: the clock, the random
  suffix of a new session id, the file system's answers and the libraries (PyMuPDF, the
  PNG encoder, base64). A library call that raises returns \<open>Inl\<close> with the text of the
  exception. \<open>get_pixmap e doc i zoom\<close> stands for
  \<open>doc.load_page(i).get_pixmap(matrix=fitz.Matrix(zoom, zoom), alpha=False)\<close>.
  The clock is read once per handler run, and \<open>time.time()\<close> is an exact real. A failing
  \<open>open\<close> or \<open>write\<close> of a page file leaves no file behind.
\<close>

record env =
  now :: real
  urandom_hex :: string
  path_exists :: "string \<Rightarrow> bool"
  fitz_open :: "string \<Rightarrow> string + fitz_doc"
  get_pixmap :: "fitz_doc \<Rightarrow> int \<Rightarrow> real \<Rightarrow> string + image"
  resize :: "image \<Rightarrow> int \<times> int \<Rightarrow> bytes"
  png_save :: "image \<Rightarrow> string + bytes"
  b64encode :: "bytes \<Rightarrow> string"
  mkdir_error :: "string \<Rightarrow> string option"
  write_error :: "string \<Rightarrow> string \<Rightarrow> string option"
  rmtree_error :: "string \<Rightarrow> string option"

section \<open>Helpers: formatting and dictionaries\<close>

text \<open>Python's \<open>str\<close> of a non-negative and of any integer, for f-strings.\<close>

definition digit :: "nat \<Rightarrow> char" where
  "digit n = ''0123456789'' ! n"

fun show_nat :: "nat \<Rightarrow> string" where
  "show_nat n =
     (if n < 10 then [digit n]
      else show_nat (n div 10) @ [digit (n mod 10)])"

declare show_nat.simps [simp del]

definition show_int :: "int \<Rightarrow> string" where
  "show_int i = (if i < 0 then CHR ''-'' # show_nat (nat (- i)) else show_nat (nat i))"

text \<open>Python's \<open>int\<close> of a float truncates towards zero.\<close>

definition py_int :: "real \<Rightarrow> int" where
  "py_int x = (if x < 0 then \<lceil>x\<rceil> else \<lfloor>x\<rfloor>)"

text \<open>\<open>d[k] = v\<close>: an existing key keeps its position, a new key goes last.\<close>

fun dict_set :: "'k \<Rightarrow> 'v \<Rightarrow> ('k \<times> 'v) list \<Rightarrow> ('k \<times> 'v) list" where
  "dict_set k v [] = [(k, v)]"
| "dict_set k v ((k', v') # d) =
     (if k' = k then (k, v) # d else (k', v') # dict_set k v d)"

text \<open>\<open>del d[k]\<close>, for a key that is present.\<close>

definition dict_del :: "'k \<Rightarrow> ('k \<times> 'v) list \<Rightarrow> ('k \<times> 'v) list" where
  "dict_del k d = filter (\<lambda>kv. fst kv \<noteq> k) d"

text \<open>\<open>m.get(k, default)\<close> on a dict given as an association list.\<close>

definition dict_get :: "('k \<times> 'v) list \<Rightarrow> 'k \<Rightarrow> 'v \<Rightarrow> 'v" where
  "dict_get d k dflt = (case map_of d k of None \<Rightarrow> dflt | Some v \<Rightarrow> v)"

text \<open>\<open>emit(name, payload)\<close>.\<close>

definition emit :: "string \<Rightarrow> json \<Rightarrow> server \<Rightarrow> server" where
  "emit name payload s = s\<lparr>emitted := emitted s @ [(name, payload)]\<rparr>"

text \<open>
  \<open>next((s for s in sessions.values() if s.get('sid')), None)\<close>: the first record, in
  insertion order, whose \<open>sid\<close> is a non-empty string (server.py, lines 299, 328, 376).
\<close>

definition first_session :: "server \<Rightarrow> session option" where
  "first_session s = find (\<lambda>r. sid r \<noteq> []) (map snd (sessions s))"

text \<open>
  \<open>session_data['current_pdf'] = pdf_path\<close> writes through the reference found by the
  scan above: the first record with a non-empty \<open>sid\<close> is the one that changes.
\<close>

fun bind_first :: "string \<Rightarrow> (string \<times> session) list \<Rightarrow> (string \<times> session) list" where
  "bind_first p [] = []"
| "bind_first p ((k, r) # d) =
     (if sid r \<noteq> [] then (k, r\<lparr>current_pdf := Some p\<rparr>) # d else (k, r) # bind_first p d)"

section \<open>PDFProcessor\<close>

text \<open>\<open>load_pdf\<close> (server.py, lines 53-83). The exception is logged and raised again.\<close>

definition load_pdf :: "env \<Rightarrow> string \<Rightarrow> server \<Rightarrow> (string + pdf_info) \<times> server" where
  "load_pdf e pdf_path s =
     (case pdf_cache s pdf_path of
        Some info \<Rightarrow> (Inr info, s)
      | None \<Rightarrow>
          (let s1 = s\<lparr>opened := opened s @ [pdf_path]\<rparr> in
           case fitz_open e pdf_path of
             Inl err \<Rightarrow> (Inl err, s1)
           | Inr doc \<Rightarrow>
               (let md = (case doc_metadata doc of None \<Rightarrow> [] | Some m \<Rightarrow> m);
                    info = \<lparr>document = doc,
                            total_pages = page_count doc,
                            path = pdf_path,
                            metadata =
                              [(''title'', dict_get md ''title'' (JStr ''Untitled'')),
                               (''author'', dict_get md ''author'' (JStr ''Unknown'')),
                               (''subject'', dict_get md ''subject'' (JStr '''')),
                               (''creator'', dict_get md ''creator'' (JStr '''')),
                               (''pages'', JInt (page_count doc))]\<rparr>
                in (Inr info, s1\<lparr>pdf_cache := (pdf_cache s1)(pdf_path \<mapsto> info)\<rparr>))))"

text \<open>
  \<open>Image.thumbnail\<close> is Pillow's, not this repository's. Its size computation is written
  here after Pillow's \<open>preserve_aspect_ratio\<close>, in exact arithmetic where Pillow uses
  floats: \<open>None\<close> when the image already fits the box, otherwise the box side the image
  is limited by and the other side scaled and rounded to a neighbouring whole pixel, at
  least 1. Where the scaled side lies exactly between two pixels, float rounding may make
  Pillow choose the other neighbour.
\<close>

definition round_aspect :: "real \<Rightarrow> (int \<Rightarrow> real) \<Rightarrow> int" where
  "round_aspect number key =
     max (if key \<lfloor>number\<rfloor> \<le> key \<lceil>number\<rceil> then \<lfloor>number\<rfloor> else \<lceil>number\<rceil>) 1"

definition preserve_aspect_ratio :: "int \<times> int \<Rightarrow> int \<times> int \<Rightarrow> string + (int \<times> int) option" where
  "preserve_aspect_ratio provided_size sz =
     (let x = fst provided_size; y = snd provided_size; w = fst sz; h = snd sz in
      if x \<ge> w \<and> y \<ge> h then Inr None
      else if h = 0 \<or> y = 0 then Inl ''division by zero''
      else
        (let aspect = real_of_int w / real_of_int h in
         if real_of_int x / real_of_int y \<ge> aspect
         then Inr (Some (round_aspect (real_of_int y * aspect)
                           (\<lambda>n. \<bar>aspect - real_of_int n / real_of_int y\<bar>), y))
         else Inr (Some (x, round_aspect (real_of_int x / aspect)
                           (\<lambda>n. if n = 0 then 0 else \<bar>aspect - real_of_int x / real_of_int n\<bar>)))))"

definition thumbnail :: "env \<Rightarrow> image \<Rightarrow> int \<times> int \<Rightarrow> string + image" where
  "thumbnail e img box =
     (case preserve_aspect_ratio box (img_width img, img_height img) of
        Inl err \<Rightarrow> Inl err
      | Inr None \<Rightarrow> Inr img
      | Inr (Some sz) \<Rightarrow>
          (if (img_width img, img_height img) \<noteq> sz
           then Inr \<lparr>img_width = fst sz, img_height = snd sz, img_samples = resize e img sz\<rparr>
           else Inr img))"

text \<open>
  \<open>render_page\<close> (server.py, lines 86-122). The exception is logged and raised again.
  The function reads the document and the clock and changes nothing of the server.
\<close>

definition render_page :: "env \<Rightarrow> fitz_doc \<Rightarrow> int \<Rightarrow> string \<Rightarrow> string + page_data" where
  "render_page e doc n quality =
     (let zoom = (if quality = ''high'' then 2 else 3 / 2) in
      case get_pixmap e doc (n - 1) zoom of
        Inl err \<Rightarrow> Inl err
      | Inr pix \<Rightarrow>
          (let target_size = (if quality = ''high'' then 1024 else 768) in
           case thumbnail e pix (target_size, target_size) of
             Inl err \<Rightarrow> Inl err
           | Inr img \<Rightarrow>
               (case png_save e img of
                  Inl err \<Rightarrow> Inl err
                | Inr png \<Rightarrow>
                    Inr \<lparr>page_num = n,
                         width = img_width img,
                         height = img_height img,
                         image_data = png,
                         image_base64 = b64encode e png,
                         timestamp = now e\<rparr>)))"

text \<open>
  A call \<open>pdf_processor.render_page(...)\<close> from a handler: the invocation is recorded in
  \<open>render_calls\<close>, the result is \<open>render_page\<close>'s.
\<close>

definition invoke_render_page ::
  "env \<Rightarrow> fitz_doc \<Rightarrow> int \<Rightarrow> string \<Rightarrow> server \<Rightarrow> (string + page_data) \<times> server" where
  "invoke_render_page e doc n quality s =
     (render_page e doc n quality,
      s\<lparr>render_calls := render_calls s @ [(doc_handle doc, n, quality)]\<rparr>)"

text \<open>
  \<open>save_page_image\<close> (server.py, lines 125-143): create the session directory if it is
  not there, write \<open>page_<n>.png\<close> into it, return the URL path.
\<close>

definition save_page_image ::
  "env \<Rightarrow> bytes \<Rightarrow> string \<Rightarrow> int \<Rightarrow> server \<Rightarrow> (string + string) \<times> server" where
  "save_page_image e data session_id n s =
     (case mkdir_error e session_id of
        Some err \<Rightarrow> (Inl err, s)
      | None \<Rightarrow>
          (let files = (case temp_pages s session_id of None \<Rightarrow> Map.empty | Some fs \<Rightarrow> fs);
               s1 = s\<lparr>temp_pages := (temp_pages s)(session_id \<mapsto> files)\<rparr>;
               filename = ''page_'' @ show_int n @ ''.png'' in
           case write_error e session_id filename of
             Some err \<Rightarrow> (Inl err, s1)
           | None \<Rightarrow>
               (Inr (''/pages/'' @ session_id @ ''/'' @ filename),
                s1\<lparr>temp_pages := (temp_pages s1)(session_id \<mapsto> files(filename \<mapsto> data))\<rparr>)))"

section \<open>WebSocket event handlers\<close>

text \<open>
  \<open>handle_connect\<close> (server.py, lines 260-274). The session id is
  \<open>session_<int(time.time())>_<os.urandom(4).hex()>\<close>.
\<close>

definition handle_connect :: "env \<Rightarrow> server \<Rightarrow> server" where
  "handle_connect e s =
     (let session_id = ''session_'' @ show_int (py_int (now e)) @ ''_'' @ urandom_hex e;
          s1 = s\<lparr>sessions := dict_set session_id
                   \<lparr>sid = session_id, current_pdf = None, last_activity = now e\<rparr> (sessions s)\<rparr>
      in emit ''connected''
           (JDict [(''session_id'', JStr session_id),
                   (''message'', JStr ''Connected to PDF viewer server'')]) s1)"

text \<open>\<open>handle_disconnect\<close> (server.py, lines 276-279) only logs.\<close>

definition handle_disconnect :: "server \<Rightarrow> server" where
  "handle_disconnect s = s"

text \<open>
  \<open>handle_load_pdf\<close> (server.py, lines 281-317). The path is \<open>PDF_DIR / f"{pdf_id}.pdf"\<close>,
  written here for an id without path separators.
\<close>

definition handle_load_pdf :: "env \<Rightarrow> string \<Rightarrow> server \<Rightarrow> server" where
  "handle_load_pdf e pdf_id s =
     (let pdf_path = ''pdfs/'' @ pdf_id @ ''.pdf'' in
      if \<not> path_exists e pdf_path
      then emit ''pdfLoaded''
             (JDict [(''success'', JBool False), (''error'', JStr ''PDF file not found'')]) s
      else
        (case load_pdf e pdf_path s of
           (Inl err, s1) \<Rightarrow>
             emit ''pdfLoaded'' (JDict [(''success'', JBool False), (''error'', JStr err)]) s1
         | (Inr info, s1) \<Rightarrow>
             (let s2 = (case first_session s1 of
                          None \<Rightarrow> s1
                        | Some session_data \<Rightarrow>
                            s1\<lparr>sessions := bind_first pdf_path (sessions s1)\<rparr>)
              in emit ''pdfLoaded''
                   (JDict [(''success'', JBool True),
                           (''pdfId'', JStr pdf_id),
                           (''totalPages'', JInt (total_pages info)),
                           (''metadata'', JDict (metadata info))]) s2)))"

text \<open>
  \<open>handle_request_page\<close> (server.py, lines 319-365). \<open>quality\<close> is \<open>None\<close> when the
  request carries no \<open>options.quality\<close>; the default is \<open>'high'\<close>.
\<close>

definition handle_request_page :: "env \<Rightarrow> int \<Rightarrow> string option \<Rightarrow> server \<Rightarrow> server" where
  "handle_request_page e n quality_opt s =
     (let quality = (case quality_opt of None \<Rightarrow> ''high'' | Some q \<Rightarrow> q) in
      case first_session s of
        None \<Rightarrow> emit ''pageData'' (JDict [(''error'', JStr ''No PDF loaded'')]) s
      | Some session_data \<Rightarrow>
          (case current_pdf session_data of
             None \<Rightarrow> emit ''pageData'' (JDict [(''error'', JStr ''No PDF loaded'')]) s
           | Some pdf_path \<Rightarrow>
               if pdf_path = []
               then emit ''pageData'' (JDict [(''error'', JStr ''No PDF loaded'')]) s
               else
                 (case load_pdf e pdf_path s of
                    (Inl err, s1) \<Rightarrow> emit ''pageData'' (JDict [(''error'', JStr err)]) s1
                  | (Inr info, s1) \<Rightarrow>
                      (case invoke_render_page e (document info) n quality s1 of
                         (Inl err, s2) \<Rightarrow> emit ''pageData'' (JDict [(''error'', JStr err)]) s2
                       | (Inr pd, s2) \<Rightarrow>
                           (case save_page_image e (image_data pd) (sid session_data) n s2 of
                              (Inl err, s3) \<Rightarrow>
                                emit ''pageData'' (JDict [(''error'', JStr err)]) s3
                            | (Inr image_url, s3) \<Rightarrow>
                                emit ''pageData''
                                  (JDict [(''pageNum'', JInt (page_num pd)),
                                          (''width'', JInt (width pd)),
                                          (''height'', JInt (height pd)),
                                          (''imageUrl'', JStr (''http://localhost:5000'' @ image_url)),
                                          (''imageBase64'', JStr (image_base64 pd)),
                                          (''timestamp'', JFloat (timestamp pd))]) s3)))))"

text \<open>
  The loop of \<open>handle_preload_pages\<close> (server.py, lines 384-406): \<open>pages\<close> is the list built
  so far; an exception leaves the loop with the state reached.
\<close>

fun preload_loop ::
  "env \<Rightarrow> pdf_info \<Rightarrow> session \<Rightarrow> string \<Rightarrow> int list \<Rightarrow> json list \<Rightarrow> server
     \<Rightarrow> (string + json list) \<times> server" where
  "preload_loop e info session_data quality [] pages s = (Inr pages, s)"
| "preload_loop e info session_data quality (n # page_nums) pages s =
     (if 1 \<le> n \<and> n \<le> total_pages info
      then
        (case invoke_render_page e (document info) n quality s of
           (Inl err, s1) \<Rightarrow> (Inl err, s1)
         | (Inr pd, s1) \<Rightarrow>
             (case save_page_image e (image_data pd) (sid session_data) n s1 of
                (Inl err, s2) \<Rightarrow> (Inl err, s2)
              | (Inr image_url, s2) \<Rightarrow>
                  preload_loop e info session_data quality page_nums
                    (pages @ [JDict [(''pageNum'', JInt (page_num pd)),
                                     (''width'', JInt (width pd)),
                                     (''height'', JInt (height pd)),
                                     (''imageUrl'', JStr (''http://localhost:5000'' @ image_url)),
                                     (''timestamp'', JFloat (timestamp pd))]]) s2))
      else preload_loop e info session_data quality page_nums pages s)"

text \<open>
  \<open>handle_preload_pages\<close> (server.py, lines 367-413); the default quality is \<open>'medium'\<close>.
\<close>

definition handle_preload_pages :: "env \<Rightarrow> int list \<Rightarrow> string option \<Rightarrow> server \<Rightarrow> server" where
  "handle_preload_pages e page_nums quality_opt s =
     (let quality = (case quality_opt of None \<Rightarrow> ''medium'' | Some q \<Rightarrow> q) in
      case first_session s of
        None \<Rightarrow> emit ''pagesPreloaded'' (JDict [(''error'', JStr ''No PDF loaded'')]) s
      | Some session_data \<Rightarrow>
          (case current_pdf session_data of
             None \<Rightarrow> emit ''pagesPreloaded'' (JDict [(''error'', JStr ''No PDF loaded'')]) s
           | Some pdf_path \<Rightarrow>
               if pdf_path = []
               then emit ''pagesPreloaded'' (JDict [(''error'', JStr ''No PDF loaded'')]) s
               else
                 (case load_pdf e pdf_path s of
                    (Inl err, s1) \<Rightarrow> emit ''pagesPreloaded'' (JDict [(''error'', JStr err)]) s1
                  | (Inr info, s1) \<Rightarrow>
                      (case preload_loop e info session_data quality page_nums [] s1 of
                         (Inl err, s2) \<Rightarrow>
                           emit ''pagesPreloaded'' (JDict [(''error'', JStr err)]) s2
                       | (Inr pages, s2) \<Rightarrow>
                           emit ''pagesPreloaded'' (JDict [(''pages'', JList pages)]) s2))))"

text \<open>\<open>handle_ping\<close> (server.py, lines 415-418).\<close>

definition handle_ping :: "env \<Rightarrow> server \<Rightarrow> server" where
  "handle_ping e s = emit ''pong'' (JDict [(''timestamp'', JFloat (now e))]) s"

section \<open>Cleanup\<close>

text \<open>
  The loop of \<open>cleanup_old_sessions\<close> (server.py, lines 430-438) over the snapshot
  \<open>list(sessions.items())\<close>. The \<open>try\<close> encloses the whole loop: an exception of
  \<open>shutil.rmtree\<close> ends it, with the state reached so far. A failing \<open>rmtree\<close> is taken
  to leave the directory as it was.
\<close>

fun cleanup_loop :: "env \<Rightarrow> real \<Rightarrow> real \<Rightarrow> (string \<times> session) list \<Rightarrow> server \<Rightarrow> server" where
  "cleanup_loop e current_time timeout [] s = s"
| "cleanup_loop e current_time timeout ((session_id, session_data) # items) s =
     (if current_time - last_activity session_data > timeout
      then
        (if session_id \<in> dom (temp_pages s)
         then
           (case rmtree_error e session_id of
              Some err \<Rightarrow> s
            | None \<Rightarrow>
                cleanup_loop e current_time timeout items
                  (s\<lparr>temp_pages := (temp_pages s)(session_id := None),
                     sessions := dict_del session_id (sessions s)\<rparr>))
         else cleanup_loop e current_time timeout items
                (s\<lparr>sessions := dict_del session_id (sessions s)\<rparr>))
      else cleanup_loop e current_time timeout items s)"

definition cleanup_old_sessions :: "env \<Rightarrow> server \<Rightarrow> server" where
  "cleanup_old_sessions e s =
     (let current_time = now e; timeout = 30 * 60 in
      cleanup_loop e current_time timeout (sessions s) s)"

section \<open>The server as a transition system\<close>

text \<open>
  \<open>get_pdf_info\<close> (server.py, lines 185-208) is the one REST route that changes the state:
  it loads the document into the cache. Only its effect on the state is kept.
\<close>

definition get_pdf_info :: "env \<Rightarrow> string \<Rightarrow> server \<Rightarrow> server" where
  "get_pdf_info e pdf_id s =
     (let pdf_path = ''pdfs/'' @ pdf_id @ ''.pdf'' in
      if \<not> path_exists e pdf_path then s else snd (load_pdf e pdf_path s))"

datatype event =
    Connect
  | Disconnect
  | LoadPDF string
  | RequestPage int "string option"
  | PreloadPages "int list" "string option"
  | Ping
  | Cleanup
  | GetPdfInfo string

fun step :: "env \<Rightarrow> event \<Rightarrow> server \<Rightarrow> server" where
  "step e Connect s = handle_connect e s"
| "step e Disconnect s = handle_disconnect s"
| "step e (LoadPDF pdf_id) s = handle_load_pdf e pdf_id s"
| "step e (RequestPage n q) s = handle_request_page e n q s"
| "step e (PreloadPages ns q) s = handle_preload_pages e ns q s"
| "step e Ping s = handle_ping e s"
| "step e Cleanup s = cleanup_old_sessions e s"
| "step e (GetPdfInfo pdf_id) s = get_pdf_info e pdf_id s"

text \<open>
  At start-up both dictionaries are empty; \<open>temp_pages\<close> may hold directories of an
  earlier run. Each step may meet a different environment.
\<close>

definition initial :: "server \<Rightarrow> bool" where
  "initial s = (sessions s = [] \<and> pdf_cache s = Map.empty)"

inductive reachable :: "server \<Rightarrow> bool" where
  reachable_init: "initial s \<Longrightarrow> reachable s"
| reachable_step: "reachable s \<Longrightarrow> reachable (step e ev s)"

section \<open>Observations\<close>

text \<open>The event a handler has just emitted, the keys of a payload, the page an entry is for.\<close>

definition response :: "server \<Rightarrow> string \<times> json" where
  "response s = last (emitted s)"

definition payload_keys :: "json \<Rightarrow> string list" where
  "payload_keys j = (case j of JDict kvs \<Rightarrow> map fst kvs | _ \<Rightarrow> [])"

definition page_number :: "json \<Rightarrow> int option" where
  "page_number j =
     (case j of
        JDict kvs \<Rightarrow> (case map_of kvs ''pageNum'' of Some (JInt n) \<Rightarrow> Some n | _ \<Rightarrow> None)
      | _ \<Rightarrow> None)"

text \<open>The sweep's test (server.py, line 431) with its timeout of 30 minutes.\<close>

definition expired :: "env \<Rightarrow> session \<Rightarrow> bool" where
  "expired e r = (now e - last_activity r > 30 * 60)"

text \<open>Every bound document path is a key of the document cache.\<close>

definition bound_in_cache :: "server \<Rightarrow> bool" where
  "bound_in_cache s =
     list_all (\<lambda>kr. case current_pdf (snd kr) of None \<Rightarrow> True | Some p \<Rightarrow> p \<in> dom (pdf_cache s))
       (sessions s)"

section \<open>A sample run\<close>

text \<open>
  One environment and the states of a short run, used to evaluate the handlers: a
  three-page document \<open>pdfs/sample.pdf\<close> of 612 by 792 points, a clock at 5000 seconds.
  As in PyMuPDF, \<open>doc.metadata\<close> carries all its keys, empty where the document says
  nothing, and \<open>load_page\<close> counts a negative index from the end and raises for an index
  of \<open>page_count\<close> or more.
\<close>

definition sample_doc :: fitz_doc where
  "sample_doc =
     \<lparr>doc_handle = 7, page_count = 3,
      doc_metadata =
        Some [(''format'', JStr ''PDF 1.7''), (''title'', JStr ''Sample''),
              (''author'', JStr []), (''subject'', JStr []), (''keywords'', JStr []),
              (''creator'', JStr []), (''producer'', JStr []), (''creationDate'', JStr []),
              (''modDate'', JStr []), (''trapped'', JStr []), (''encryption'', JNone)]\<rparr>"

definition sample_env :: env where
  "sample_env =
     \<lparr>now = 5000,
      urandom_hex = ''0a1b2c3d'',
      path_exists = (\<lambda>p. p = ''pdfs/sample.pdf''),
      fitz_open = (\<lambda>p. if p = ''pdfs/sample.pdf'' then Inr sample_doc
                        else Inl ''no such file''),
      get_pixmap = (\<lambda>d i z. if i < page_count d
                     then Inr \<lparr>img_width = \<lfloor>612 * z\<rfloor>, img_height = \<lfloor>792 * z\<rfloor>,
                               img_samples = []\<rparr>
                     else Inl ''page not in document''),
      resize = (\<lambda>img sz. []),
      png_save = (\<lambda>img. Inr [137, 80, 78, 71]),
      b64encode = (\<lambda>b. ''iVBORw==''),
      mkdir_error = (\<lambda>d. None),
      write_error = (\<lambda>d f. None),
      rmtree_error = (\<lambda>d. None)\<rparr>"

definition empty_server :: server where
  "empty_server =
     \<lparr>sessions = [], pdf_cache = Map.empty, temp_pages = Map.empty,
      emitted = [], opened = [], render_calls = []\<rparr>"

text \<open>One client connects and loads the document.\<close>

definition connected_server :: server where
  "connected_server = handle_connect sample_env empty_server"

definition bound_server :: server where
  "bound_server = handle_load_pdf sample_env ''sample'' connected_server"

text \<open>A second client connects a minute later.\<close>

definition second_env :: env where
  "second_env = sample_env\<lparr>now := 5060, urandom_hex := ''9e8f7a6b''\<rparr>"

definition two_sessions :: server where
  "two_sessions = handle_connect second_env connected_server"

text \<open>What \<open>load_pdf\<close> builds for the sample document.\<close>

definition sample_info :: pdf_info where
  "sample_info =
     \<lparr>document = sample_doc, total_pages = 3, path = ''pdfs/sample.pdf'',
      metadata = [(''title'', JStr ''Sample''), (''author'', JStr []),
                  (''subject'', JStr []), (''creator'', JStr []), (''pages'', JInt 3)]\<rparr>"

text \<open>The same environment after the file has been removed from disk.\<close>

definition vanished_env :: env where
  "vanished_env =
     sample_env\<lparr>path_exists := (\<lambda>p. False), fitz_open := (\<lambda>p. Inl ''no such file'')\<rparr>"



definition sample_session :: session where
  "sample_session =
     \<lparr>sid = ''session_5000_0a1b2c3d'', current_pdf = Some ''pdfs/sample.pdf'',
      last_activity = 5000\<rparr>"


text \<open>The last-activity timestamp of every session, in table order.\<close>

definition activity :: "server \<Rightarrow> (string \<times> real) list" where
  "activity s = map (\<lambda>kr. (fst kr, last_activity (snd kr))) (sessions s)"

text \<open>
  Two clients are connected. Either the first one loads the document, or the document
  only enters the cache through \<open>GET /api/pdf/sample/info\<close> and nobody has loaded it.
\<close>

definition first_bound :: server where
  "first_bound = handle_load_pdf sample_env ''sample'' two_sessions"

definition none_bound :: server where
  "none_bound = get_pdf_info sample_env ''sample'' two_sessions"

text \<open>The clock half an hour after the first connection, and one second later.\<close>

definition ping_env :: env where
  "ping_env = sample_env\<lparr>now := 6800\<rparr>"

definition sweep_env :: env where
  "sweep_env = sample_env\<lparr>now := 6801\<rparr>"


text \<open>An environment in which every path exists but only the sample document opens.\<close>

definition corrupt_env :: env where
  "corrupt_env =
     sample_env\<lparr>path_exists := (\<lambda>p. True),
                fitz_open := (\<lambda>p. if p = ''pdfs/sample.pdf'' then Inr sample_doc
                                   else Inl ''cannot open broken document'')\<rparr>"


text \<open>
  The first client has requested a page, so its directory exists. Then two clocks for a
  sweep: one at which only the first session has expired, and one at which both have,
  with a file system that refuses to delete the first session's directory.
\<close>

definition paged :: server where
  "paged = handle_request_page sample_env 1 None first_bound"

definition mid_env :: env where
  "mid_env = sample_env\<lparr>now := 6830\<rparr>"

definition denied_env :: env where
  "denied_env =
     sample_env\<lparr>now := 9000,
                rmtree_error := (\<lambda>d. if d = ''session_5000_0a1b2c3d''
                                     then Some ''Permission denied'' else None)\<rparr>"

definition second_session :: session where
  "second_session =
     \<lparr>sid = ''session_5060_9e8f7a6b'', current_pdf = None, last_activity = 5060\<rparr>"


text \<open>
  A table given directly: an older session with an empty directory stands before the two
  sessions of \<open>paged\<close>.
\<close>

definition old_session :: session where
  "old_session = \<lparr>sid = ''session_100_5f5f5f5f'', current_pdf = None, last_activity = 100\<rparr>"

definition three_sessions :: server where
  "three_sessions =
     paged\<lparr>sessions := (''session_100_5f5f5f5f'', old_session) # sessions paged,
           temp_pages := (temp_pages paged)(''session_100_5f5f5f5f'' \<mapsto> Map.empty)\<rparr>"

text \<open>The clock of \<open>mid_env\<close> with the file system of \<open>denied_env\<close>.\<close>

definition mid_denied_env :: env where
  "mid_denied_env = mid_env\<lparr>rmtree_error := rmtree_error denied_env\<rparr>"
section \<open>Effects of the building blocks\<close>

lemmas eval_defs = handle_connect_def handle_load_pdf_def handle_request_page_def
  handle_preload_pages_def handle_ping_def cleanup_old_sessions_def get_pdf_info_def
  load_pdf_def render_page_def invoke_render_page_def save_page_image_def thumbnail_def
  preserve_aspect_ratio_def round_aspect_def first_session_def emit_def dict_get_def dict_del_def
  show_int_def show_nat.simps digit_def py_int_def Let_def
  sample_env_def sample_doc_def sample_info_def empty_server_def second_env_def vanished_env_def
  response_def payload_keys_def page_number_def expired_def

lemma emit_simps [simp]:
  "sessions (emit name payload s) = sessions s"
  "pdf_cache (emit name payload s) = pdf_cache s"
  "temp_pages (emit name payload s) = temp_pages s"
  "opened (emit name payload s) = opened s"
  "render_calls (emit name payload s) = render_calls s"
  "emitted (emit name payload s) = emitted s @ [(name, payload)]"
  "response (emit name payload s) = (name, payload)"
  by (simp_all add: emit_def response_def)

lemma load_pdf_keeps [simp]:
  "sessions (snd (load_pdf e p s)) = sessions s"
  "temp_pages (snd (load_pdf e p s)) = temp_pages s"
  "emitted (snd (load_pdf e p s)) = emitted s"
  "render_calls (snd (load_pdf e p s)) = render_calls s"
  by (simp_all add: load_pdf_def Let_def split: option.splits sum.splits)

lemma load_pdf_cache_grows: "dom (pdf_cache s) \<subseteq> dom (pdf_cache (snd (load_pdf e p s)))"
  by (auto simp: load_pdf_def Let_def split: option.splits sum.splits)

lemma load_pdf_Inr_cached:
  "load_pdf e p s = (Inr info, s1) \<Longrightarrow> pdf_cache s1 p = Some info"
  by (auto simp: load_pdf_def Let_def split: option.splits sum.splits)

lemma load_pdf_hit: "pdf_cache s p = Some info \<Longrightarrow> load_pdf e p s = (Inr info, s)"
  by (simp add: load_pdf_def)

lemma invoke_render_page_keeps [simp]:
  "fst (invoke_render_page e doc n q s) = render_page e doc n q"
  "sessions (snd (invoke_render_page e doc n q s)) = sessions s"
  "pdf_cache (snd (invoke_render_page e doc n q s)) = pdf_cache s"
  "temp_pages (snd (invoke_render_page e doc n q s)) = temp_pages s"
  "emitted (snd (invoke_render_page e doc n q s)) = emitted s"
  "opened (snd (invoke_render_page e doc n q s)) = opened s"
  "render_calls (snd (invoke_render_page e doc n q s)) = render_calls s @ [(doc_handle doc, n, q)]"
  by (simp_all add: invoke_render_page_def)

lemma save_page_image_keeps [simp]:
  "sessions (snd (save_page_image e d k n s)) = sessions s"
  "pdf_cache (snd (save_page_image e d k n s)) = pdf_cache s"
  "emitted (snd (save_page_image e d k n s)) = emitted s"
  "opened (snd (save_page_image e d k n s)) = opened s"
  "render_calls (snd (save_page_image e d k n s)) = render_calls s"
  by (simp_all add: save_page_image_def Let_def split: option.splits)


section \<open>The document cache\<close>

lemma sample_first_load:
  "load_pdf sample_env ''pdfs/sample.pdf'' empty_server =
     (Inr sample_info, empty_server\<lparr>pdf_cache := [''pdfs/sample.pdf'' \<mapsto> sample_info],
                                   opened := [''pdfs/sample.pdf'']\<rparr>)"
  by (simp add: eval_defs)

text \<open>
  C7. Once \<open>load_pdf\<close> has returned an entry for a path, a second call for that path, in
  whatever environment (the file may be gone or unreadable by then), returns the same
  entry, so the same metadata and page count, and leaves the server as it was: the cache
  is not written, and \<open>opened\<close> shows that \<open>fitz.open\<close> is not called again.
\<close>

theorem load_pdf_second_call:
  assumes "load_pdf e pdf_path s = (Inr info, s1)"
  shows "load_pdf e' pdf_path s1 = (Inr info, s1)
         \<and> opened (snd (load_pdf e' pdf_path s1)) = opened s1"
proof -
  from assms have "pdf_cache s1 pdf_path = Some info" by (rule load_pdf_Inr_cached)
  then have "load_pdf e' pdf_path s1 = (Inr info, s1)" by (rule load_pdf_hit)
  then show ?thesis by simp
qed

theorem load_pdf_second_call_witness:
  "load_pdf vanished_env ''pdfs/sample.pdf''
     (snd (load_pdf sample_env ''pdfs/sample.pdf'' empty_server))
   = (Inr sample_info, snd (load_pdf sample_env ''pdfs/sample.pdf'' empty_server))
   \<and> opened (snd (load_pdf vanished_env ''pdfs/sample.pdf''
        (snd (load_pdf sample_env ''pdfs/sample.pdf'' empty_server)))) = [''pdfs/sample.pdf'']
   \<and> fitz_open vanished_env ''pdfs/sample.pdf'' = Inl ''no such file''"
  using load_pdf_second_call [OF sample_first_load, of vanished_env]
  by (simp add: sample_first_load) (simp add: vanished_env_def sample_env_def)

section \<open>Preloading pages\<close>

lemma payload_keys_JDict [simp]: "payload_keys (JDict kvs) = map fst kvs"
  by (simp add: payload_keys_def)

lemma page_number_entry [simp]: "page_number (JDict ((''pageNum'', JInt n) # rest)) = Some n"
  by (simp add: page_number_def)

lemma save_page_image_result:
  assumes "save_page_image e d k n s = (r, s')"
  shows "sessions s' = sessions s" "pdf_cache s' = pdf_cache s" "emitted s' = emitted s"
    "opened s' = opened s" "render_calls s' = render_calls s"
  using save_page_image_keeps [of e d k n s] assms by simp_all


lemma preload_loop_keeps:
  "sessions (snd (preload_loop e info sd q ns pages s)) = sessions s \<and>
   pdf_cache (snd (preload_loop e info sd q ns pages s)) = pdf_cache s \<and>
   emitted (snd (preload_loop e info sd q ns pages s)) = emitted s \<and>
   opened (snd (preload_loop e info sd q ns pages s)) = opened s"
proof (induction ns arbitrary: pages s)
  case Nil
  show ?case by simp
next
  case (Cons n ns)
  show ?case
    by (auto simp: Cons.IH invoke_render_page_def save_page_image_result
          split: prod.splits sum.splits)
qed



lemma connected_server_eq:
  "connected_server =
     \<lparr>sessions = [(''session_5000_0a1b2c3d'',
                    \<lparr>sid = ''session_5000_0a1b2c3d'', current_pdf = None, last_activity = 5000\<rparr>)],
      pdf_cache = Map.empty, temp_pages = Map.empty,
      emitted = [(''connected'',
                  JDict [(''session_id'', JStr ''session_5000_0a1b2c3d''),
                         (''message'', JStr ''Connected to PDF viewer server'')])],
      opened = [], render_calls = []\<rparr>"
  by (simp add: connected_server_def eval_defs)

lemma bound_server_eq:
  "bound_server =
     \<lparr>sessions = [(''session_5000_0a1b2c3d'',
                    \<lparr>sid = ''session_5000_0a1b2c3d'', current_pdf = Some ''pdfs/sample.pdf'',
                       last_activity = 5000\<rparr>)],
      pdf_cache = [''pdfs/sample.pdf'' \<mapsto> sample_info], temp_pages = Map.empty,
      emitted = [(''connected'',
                  JDict [(''session_id'', JStr ''session_5000_0a1b2c3d''),
                         (''message'', JStr ''Connected to PDF viewer server'')]),
                 (''pdfLoaded'',
                  JDict [(''success'', JBool True), (''pdfId'', JStr ''sample''),
                         (''totalPages'', JInt 3), (''metadata'', JDict (metadata sample_info))])],
      opened = [''pdfs/sample.pdf''], render_calls = []\<rparr>"
  by (simp add: bound_server_def connected_server_eq eval_defs)







lemma sample_session_pdf:
  "current_pdf sample_session = Some ''pdfs/sample.pdf''" "''pdfs/sample.pdf'' \<noteq> []"
  by (simp_all add: sample_session_def)






section \<open>Sessions, activity and page requests\<close>

lemmas run_defs = eval_defs ping_env_def sweep_env_def

lemma load_pdf_result:
  assumes "load_pdf e p s = (r, s')"
  shows "sessions s' = sessions s" "temp_pages s' = temp_pages s" "emitted s' = emitted s"
    "render_calls s' = render_calls s" "dom (pdf_cache s) \<subseteq> dom (pdf_cache s')"
  using load_pdf_keeps [of e p s] load_pdf_cache_grows [of s e p] assms by simp_all

lemma preload_loop_result:
  assumes "preload_loop e info sd q ns pages s = (r, s')"
  shows "sessions s' = sessions s" "pdf_cache s' = pdf_cache s" "emitted s' = emitted s"
    "opened s' = opened s"
  using preload_loop_keeps [of e info sd q ns pages s] assms by simp_all

lemma handle_request_page_sessions [simp]:
  "sessions (handle_request_page e n qo s) = sessions s"
  by (auto simp: handle_request_page_def Let_def invoke_render_page_def
        load_pdf_result save_page_image_result
        split: option.splits prod.splits sum.splits)

lemma handle_preload_pages_sessions [simp]:
  "sessions (handle_preload_pages e ns qo s) = sessions s"
  by (auto simp: handle_preload_pages_def Let_def load_pdf_result preload_loop_result
        split: option.splits prod.splits sum.splits)

lemma handle_ping_sessions [simp]: "sessions (handle_ping e s) = sessions s"
  by (simp add: handle_ping_def)

lemma bind_first_activity:
  "map (\<lambda>kr. (fst kr, last_activity (snd kr))) (bind_first p d)
     = map (\<lambda>kr. (fst kr, last_activity (snd kr))) d"
  by (induction p d rule: bind_first.induct) simp_all

lemma map_of_dict_set: "map_of (dict_set k v d) k = Some v"
  by (induction d) auto

text \<open>
  No \<open>loadPDF\<close>, \<open>requestPage\<close>, \<open>preloadPages\<close> or \<open>ping\<close> event changes the last-activity
  timestamp of any session: the four handlers leave the list of timestamps as it was.
  \<open>last_activity\<close> is written by \<open>handle_connect\<close> alone.
\<close>

lemma handlers_keep_last_activity:
  "activity (handle_load_pdf e pdf_id s) = activity s
   \<and> activity (handle_request_page e n qo s) = activity s
   \<and> activity (handle_preload_pages e page_nums qo s) = activity s
   \<and> activity (handle_ping e s) = activity s"
proof -
  have "activity (handle_load_pdf e pdf_id s) = activity s"
    by (auto simp: activity_def handle_load_pdf_def Let_def load_pdf_result bind_first_activity
          split: option.splits prod.splits sum.splits)
  then show ?thesis by (simp add: activity_def)
qed

text \<open>
  C3 fails on the code. A session connected at 5000 s processes a \<open>loadPDF\<close>, a
  \<open>requestPage\<close>, a \<open>preloadPages\<close> or a \<open>ping\<close> at 6800 s: after each of them its
  \<open>last_activity\<close> is still 5000, not 6800, and the sweep one second later, at 6801 s,
  finds it idle and removes it.
\<close>

theorem events_do_not_refresh_last_activity:
  "now ping_env = 6800 \<and> now sweep_env = 6801
   \<and> activity bound_server = [(''session_5000_0a1b2c3d'', 5000)]
   \<and> activity (handle_load_pdf ping_env ''sample'' bound_server)
       = [(''session_5000_0a1b2c3d'', 5000)]
   \<and> activity (handle_request_page ping_env 1 None bound_server)
       = [(''session_5000_0a1b2c3d'', 5000)]
   \<and> activity (handle_preload_pages ping_env [1, 2] None bound_server)
       = [(''session_5000_0a1b2c3d'', 5000)]
   \<and> activity (handle_ping ping_env bound_server) = [(''session_5000_0a1b2c3d'', 5000)]
   \<and> sessions (cleanup_old_sessions sweep_env
         (handle_load_pdf ping_env ''sample'' bound_server)) = []
   \<and> sessions (cleanup_old_sessions sweep_env
         (handle_request_page ping_env 1 None bound_server)) = []
   \<and> sessions (cleanup_old_sessions sweep_env
         (handle_preload_pages ping_env [1, 2] None bound_server)) = []
   \<and> sessions (cleanup_old_sessions sweep_env (handle_ping ping_env bound_server)) = []"
proof -
  have a: "activity bound_server = [(''session_5000_0a1b2c3d'', 5000)]"
    and s: "sessions bound_server
              = [(''session_5000_0a1b2c3d'', sample_session)]"
    by (simp_all add: bound_server_eq activity_def sample_session_def)
  have k: "sessions (handle_request_page ping_env 1 None bound_server) = sessions bound_server"
    "sessions (handle_preload_pages ping_env [1, 2] None bound_server) = sessions bound_server"
    "sessions (handle_ping ping_env bound_server) = sessions bound_server"
    by simp_all
  have l: "sessions (handle_load_pdf ping_env ''sample'' bound_server) = sessions bound_server"
    by (simp add: bound_server_eq run_defs)
  have t: "temp_pages (handle_load_pdf ping_env ''sample'' bound_server) = Map.empty"
    "temp_pages (handle_ping ping_env bound_server) = Map.empty"
    by (simp_all add: bound_server_eq run_defs)
  have c: "sessions (cleanup_old_sessions sweep_env s') = []"
    if "sessions s' = sessions bound_server" for s'
    using that
    by (simp add: s cleanup_old_sessions_def sweep_env_def sample_env_def sample_session_def
          dict_del_def split: option.splits)
  show ?thesis
    using a k l c [OF k(1)] c [OF k(2)] c [OF k(3)] c [OF l]
    by (simp add: activity_def ping_env_def sweep_env_def)
qed

lemma two_sessions_eq:
  "two_sessions =
     \<lparr>sessions = [(''session_5000_0a1b2c3d'',
                    \<lparr>sid = ''session_5000_0a1b2c3d'', current_pdf = None, last_activity = 5000\<rparr>),
                   (''session_5060_9e8f7a6b'',
                    \<lparr>sid = ''session_5060_9e8f7a6b'', current_pdf = None, last_activity = 5060\<rparr>)],
      pdf_cache = Map.empty, temp_pages = Map.empty,
      emitted = [(''connected'',
                  JDict [(''session_id'', JStr ''session_5000_0a1b2c3d''),
                         (''message'', JStr ''Connected to PDF viewer server'')]),
                 (''connected'',
                  JDict [(''session_id'', JStr ''session_5060_9e8f7a6b''),
                         (''message'', JStr ''Connected to PDF viewer server'')])],
      opened = [], render_calls = []\<rparr>"
  by (simp add: two_sessions_def connected_server_eq eval_defs)

lemma first_bound_eq:
  "first_bound =
     \<lparr>sessions = [(''session_5000_0a1b2c3d'',
                    \<lparr>sid = ''session_5000_0a1b2c3d'', current_pdf = Some ''pdfs/sample.pdf'',
                       last_activity = 5000\<rparr>),
                   (''session_5060_9e8f7a6b'',
                    \<lparr>sid = ''session_5060_9e8f7a6b'', current_pdf = None, last_activity = 5060\<rparr>)],
      pdf_cache = [''pdfs/sample.pdf'' \<mapsto> sample_info], temp_pages = Map.empty,
      emitted = emitted two_sessions @
                [(''pdfLoaded'',
                  JDict [(''success'', JBool True), (''pdfId'', JStr ''sample''),
                         (''totalPages'', JInt 3), (''metadata'', JDict (metadata sample_info))])],
      opened = [''pdfs/sample.pdf''], render_calls = []\<rparr>"
  by (simp add: first_bound_def two_sessions_eq eval_defs)

lemma none_bound_eq:
  "none_bound =
     \<lparr>sessions = [(''session_5000_0a1b2c3d'',
                    \<lparr>sid = ''session_5000_0a1b2c3d'', current_pdf = None, last_activity = 5000\<rparr>),
                   (''session_5060_9e8f7a6b'',
                    \<lparr>sid = ''session_5060_9e8f7a6b'', current_pdf = None, last_activity = 5060\<rparr>)],
      pdf_cache = [''pdfs/sample.pdf'' \<mapsto> sample_info], temp_pages = Map.empty,
      emitted = emitted two_sessions,
      opened = [''pdfs/sample.pdf''], render_calls = []\<rparr>"
  by (simp add: none_bound_def two_sessions_eq eval_defs)

text \<open>
  C2 fails on the code. The two tables \<open>first_bound\<close> and \<open>none_bound\<close> hold the same two
  sessions with the same record for the second client, the same cache and the same
  directories; they differ in the first client's record only. A \<open>requestPage\<close> of the
  second client, which has loaded nothing, is answered with "No PDF loaded" in one and with
  a page of the first client's document, stored in the first client's directory, in the
  other. A \<open>loadPDF\<close> of the second client binds the first client's record.
\<close>

theorem request_page_answers_from_first_session:
  "map fst (sessions first_bound) = [''session_5000_0a1b2c3d'', ''session_5060_9e8f7a6b'']
   \<and> map fst (sessions none_bound) = [''session_5000_0a1b2c3d'', ''session_5060_9e8f7a6b'']
   \<and> map_of (sessions first_bound) ''session_5060_9e8f7a6b''
       = map_of (sessions none_bound) ''session_5060_9e8f7a6b''
   \<and> pdf_cache first_bound = pdf_cache none_bound
   \<and> temp_pages first_bound = temp_pages none_bound
   \<and> response (handle_request_page second_env 1 None none_bound)
       = (''pageData'', JDict [(''error'', JStr ''No PDF loaded'')])
   \<and> response (handle_request_page second_env 1 None first_bound)
       = (''pageData'',
          JDict [(''pageNum'', JInt 1), (''width'', JInt 791), (''height'', JInt 1024),
                 (''imageUrl'',
                  JStr ''http://localhost:5000/pages/session_5000_0a1b2c3d/page_1.png''),
                 (''imageBase64'', JStr ''iVBORw==''),
                 (''timestamp'', JFloat 5060)])
   \<and> sessions (handle_load_pdf second_env ''sample'' two_sessions) = sessions first_bound"
  by (simp add: first_bound_eq none_bound_eq two_sessions_eq eval_defs)

text \<open>
  C1 fails on the code. On the three-page sample document, \<open>requestPage\<close> for page 5 and
  for page 0 calls \<open>render_page\<close> with that number: no range check precedes the call.
  For page 5 the error payload carries the renderer's exception; for page 0 the renderer
  is asked for index -1, which PyMuPDF takes as the last page, and the answer is a
  successful \<open>pageData\<close> numbered 0. \<open>preloadPages\<close> with the same numbers does not call
  the renderer.
\<close>

theorem request_page_out_of_range_is_rendered:
  "total_pages sample_info = 3
   \<and> render_calls (handle_request_page sample_env 5 None bound_server) = [(7, 5, ''high'')]
   \<and> response (handle_request_page sample_env 5 None bound_server)
       = (''pageData'', JDict [(''error'', JStr ''page not in document'')])
   \<and> render_calls (handle_request_page sample_env 0 None bound_server) = [(7, 0, ''high'')]
   \<and> response (handle_request_page sample_env 0 None bound_server)
       = (''pageData'',
          JDict [(''pageNum'', JInt 0), (''width'', JInt 791), (''height'', JInt 1024),
                 (''imageUrl'',
                  JStr ''http://localhost:5000/pages/session_5000_0a1b2c3d/page_0.png''),
                 (''imageBase64'', JStr ''iVBORw==''),
                 (''timestamp'', JFloat 5000)])
   \<and> render_calls (handle_preload_pages sample_env [5, 0] None bound_server) = []"
  by (simp add: bound_server_eq eval_defs)


section \<open>Bound documents are cached\<close>

lemma bound_in_cache_iff:
  "bound_in_cache s \<longleftrightarrow>
     (\<forall>k r p. (k, r) \<in> set (sessions s) \<and> current_pdf r = Some p \<longrightarrow> p \<in> dom (pdf_cache s))"
  by (fastforce simp: bound_in_cache_def list_all_iff split: option.splits)

lemma bound_in_cache_mono:
  assumes "bound_in_cache s" "set (sessions s') \<subseteq> set (sessions s)"
    "dom (pdf_cache s) \<subseteq> dom (pdf_cache s')"
  shows "bound_in_cache s'"
  using assms unfolding bound_in_cache_iff by blast

lemma handle_request_page_cache:
  "dom (pdf_cache s) \<subseteq> dom (pdf_cache (handle_request_page e n qo s))"
  by (simp add: handle_request_page_def Let_def case_prod_beta load_pdf_cache_grows
        split: option.splits sum.splits)

lemma handle_preload_pages_cache:
  "dom (pdf_cache s) \<subseteq> dom (pdf_cache (handle_preload_pages e ns qo s))"
  by (simp add: handle_preload_pages_def Let_def case_prod_beta load_pdf_cache_grows
        preload_loop_keeps split: option.splits sum.splits)

lemma cleanup_loop_shrinks:
  "set (sessions (cleanup_loop e ct to items s)) \<subseteq> set (sessions s)
   \<and> pdf_cache (cleanup_loop e ct to items s) = pdf_cache s"
proof (induction items arbitrary: s)
  case Nil
  show ?case by simp
next
  case (Cons kr items)
  obtain k r where kr: "kr = (k, r)" by (cases kr)
  show ?case
    unfolding kr
    using Cons.IH [of "s\<lparr>temp_pages := (temp_pages s)(k := None),
                            sessions := dict_del k (sessions s)\<rparr>"]
      Cons.IH [of "s\<lparr>sessions := dict_del k (sessions s)\<rparr>"] Cons.IH [of s]
    by (auto simp: dict_del_def split: option.splits)
qed

lemma set_dict_set: "set (dict_set k v d) \<subseteq> insert (k, v) (set d)"
  by (induction d) (auto split: if_splits)

lemma bind_first_bound:
  "(k, r) \<in> set (bind_first p d) \<Longrightarrow> (k, r) \<in> set d \<or> current_pdf r = Some p"
  by (induction p d rule: bind_first.induct) (auto split: if_splits)

lemma handle_connect_inv:
  assumes "bound_in_cache s"
  shows "bound_in_cache (handle_connect e s)"
proof -
  define k where "k = ''session_'' @ show_int (py_int (now e)) @ ''_'' @ urandom_hex e"
  define v where "v = \<lparr>sid = k, current_pdf = None, last_activity = now e\<rparr>"
  have s: "sessions (handle_connect e s) = dict_set k v (sessions s)"
    and c: "pdf_cache (handle_connect e s) = pdf_cache s"
    by (simp_all add: handle_connect_def Let_def k_def v_def)
  have "current_pdf v = None" by (simp add: v_def)
  with assms set_dict_set [of k v "sessions s"] show ?thesis
    unfolding bound_in_cache_iff s c by fastforce
qed

lemma bound_in_cache_emit [simp]: "bound_in_cache (emit name payload s) = bound_in_cache s"
  by (simp add: bound_in_cache_iff)

lemma handle_load_pdf_inv:
  assumes inv: "bound_in_cache s"
  shows "bound_in_cache (handle_load_pdf e pdf_id s)"
proof -
  let ?p = "''pdfs/'' @ pdf_id @ ''.pdf''"
  obtain res s1 where l: "load_pdf e ?p s = (res, s1)" by (cases "load_pdf e ?p s")
  note k = load_pdf_result [OF l]
  have inv1: "bound_in_cache s1"
    using k(1) k(5) by (intro bound_in_cache_mono [OF inv]) simp_all
  show ?thesis
  proof (cases "path_exists e ?p")
    case False
    with inv show ?thesis by (simp add: handle_load_pdf_def)
  next
    case True
    show ?thesis
    proof (cases res)
      case (Inl err)
      with True l inv1 show ?thesis by (simp add: handle_load_pdf_def)
    next
      case (Inr info)
      with l have c: "?p \<in> dom (pdf_cache s1)" by (auto dest: load_pdf_Inr_cached)
      have b: "bound_in_cache (s1\<lparr>sessions := bind_first ?p (sessions s1)\<rparr>)"
        unfolding bound_in_cache_iff
      proof (intro allI impI)
        fix k r p
        assume a: "(k, r) \<in> set (sessions (s1\<lparr>sessions := bind_first ?p (sessions s1)\<rparr>))
                   \<and> current_pdf r = Some p"
        then have "(k, r) \<in> set (bind_first ?p (sessions s1))" by simp
        then have "(k, r) \<in> set (sessions s1) \<or> current_pdf r = Some ?p"
          by (rule bind_first_bound)
        with a c inv1 [unfolded bound_in_cache_iff]
        show "p \<in> dom (pdf_cache (s1\<lparr>sessions := bind_first ?p (sessions s1)\<rparr>))"
          by auto
      qed
      show ?thesis
      proof (cases "first_session s1")
        case None
        with True l Inr inv1 show ?thesis by (simp add: handle_load_pdf_def)
      next
        case (Some sd)
        with True l Inr b show ?thesis by (simp add: handle_load_pdf_def)
      qed
    qed
  qed
qed

lemma step_inv:
  assumes inv: "bound_in_cache s"
  shows "bound_in_cache (step e ev s)"
proof (cases ev)
  case Connect
  with inv show ?thesis by (simp add: handle_connect_inv)
next
  case Disconnect
  with inv show ?thesis by (simp add: handle_disconnect_def)
next
  case (LoadPDF pdf_id)
  with inv show ?thesis by (simp add: handle_load_pdf_inv)
next
  case (RequestPage n q)
  have "bound_in_cache (handle_request_page e n q s)"
    using handle_request_page_cache [of s e n q]
    by (intro bound_in_cache_mono [OF inv]) simp_all
  with RequestPage show ?thesis by simp
next
  case (PreloadPages ns q)
  have "bound_in_cache (handle_preload_pages e ns q s)"
    using handle_preload_pages_cache [of s e ns q]
    by (intro bound_in_cache_mono [OF inv]) simp_all
  with PreloadPages show ?thesis by simp
next
  case Ping
  have "bound_in_cache (handle_ping e s)"
    by (intro bound_in_cache_mono [OF inv]) (simp_all add: handle_ping_def)
  with Ping show ?thesis by simp
next
  case Cleanup
  have "bound_in_cache (cleanup_old_sessions e s)"
    using cleanup_loop_shrinks [of e "now e" "30 * 60" "sessions s" s]
    by (intro bound_in_cache_mono [OF inv]) (simp_all add: cleanup_old_sessions_def Let_def)
  with Cleanup show ?thesis by simp
next
  case (GetPdfInfo pdf_id)
  have "bound_in_cache (get_pdf_info e pdf_id s)"
    using load_pdf_cache_grows [of s e "''pdfs/'' @ pdf_id @ ''.pdf''"]
    by (intro bound_in_cache_mono [OF inv]) (simp_all add: get_pdf_info_def Let_def)
  with GetPdfInfo show ?thesis by simp
qed

lemma reachable_bound_in_cache: "reachable s \<Longrightarrow> bound_in_cache s"
proof (induction rule: reachable.induct)
  case (reachable_init s)
  then show ?case by (simp add: initial_def bound_in_cache_def)
next
  case (reachable_step s e ev)
  then show ?case by (simp add: step_inv)
qed

lemma handle_load_pdf_failure:
  assumes "\<not> path_exists e (''pdfs/'' @ pdf_id @ ''.pdf'')
           \<or> (\<exists>err. fst (load_pdf e (''pdfs/'' @ pdf_id @ ''.pdf'') s) = Inl err)"
  shows "sessions (handle_load_pdf e pdf_id s) = sessions s
         \<and> (\<exists>err. response (handle_load_pdf e pdf_id s)
                   = (''pdfLoaded'', JDict [(''success'', JBool False), (''error'', JStr err)]))"
  using assms
  by (auto simp: handle_load_pdf_def Let_def load_pdf_result split: prod.splits sum.splits)

text \<open>
  C6. In every state the server can reach from its start, by any sequence of events in
  any environments, each session's bound document path is a key of the document cache.
  And a \<open>loadPDF\<close> whose file is missing or does not open leaves every session record as it
  was and emits a \<open>pdfLoaded\<close> payload with \<open>success = False\<close> and an error text.
\<close>

theorem bound_document_is_cached:
  "(reachable s \<longrightarrow>
      (\<forall>k r p. (k, r) \<in> set (sessions s) \<and> current_pdf r = Some p \<longrightarrow> p \<in> dom (pdf_cache s)))
   \<and> (\<not> path_exists e (''pdfs/'' @ pdf_id @ ''.pdf'')
        \<or> (\<exists>err. fst (load_pdf e (''pdfs/'' @ pdf_id @ ''.pdf'') s') = Inl err) \<longrightarrow>
      sessions (handle_load_pdf e pdf_id s') = sessions s'
      \<and> (\<exists>err. response (handle_load_pdf e pdf_id s')
                = (''pdfLoaded'', JDict [(''success'', JBool False), (''error'', JStr err)])))"
proof (intro conjI impI)
  assume "reachable s"
  then have "bound_in_cache s" by (rule reachable_bound_in_cache)
  then show "\<forall>k r p. (k, r) \<in> set (sessions s) \<and> current_pdf r = Some p
               \<longrightarrow> p \<in> dom (pdf_cache s)"
    by (simp only: bound_in_cache_iff)
next
  assume f: "\<not> path_exists e (''pdfs/'' @ pdf_id @ ''.pdf'')
        \<or> (\<exists>err. fst (load_pdf e (''pdfs/'' @ pdf_id @ ''.pdf'') s') = Inl err)"
  from handle_load_pdf_failure [OF f]
  show "sessions (handle_load_pdf e pdf_id s') = sessions s'"
    and "\<exists>err. response (handle_load_pdf e pdf_id s')
                = (''pdfLoaded'', JDict [(''success'', JBool False), (''error'', JStr err)])"
    by simp_all
qed


lemma bound_server_reachable: "reachable bound_server"
proof -
  have "initial empty_server" by (simp add: initial_def empty_server_def)
  then have "reachable empty_server" by (rule reachable_init)
  then have "reachable (step sample_env Connect empty_server)" by (rule reachable_step)
  then have "reachable (step sample_env (LoadPDF ''sample'') (step sample_env Connect empty_server))"
    by (rule reachable_step)
  then show ?thesis by (simp add: bound_server_def connected_server_def)
qed

theorem bound_document_is_cached_witness:
  "(''session_5000_0a1b2c3d'', sample_session) \<in> set (sessions bound_server)
   \<and> current_pdf sample_session = Some ''pdfs/sample.pdf''
   \<and> ''pdfs/sample.pdf'' \<in> dom (pdf_cache bound_server)
   \<and> \<not> path_exists sample_env ''pdfs/missing.pdf''
   \<and> sessions (handle_load_pdf sample_env ''missing'' bound_server) = sessions bound_server
   \<and> (\<exists>err. response (handle_load_pdf sample_env ''missing'' bound_server)
             = (''pdfLoaded'', JDict [(''success'', JBool False), (''error'', JStr err)]))
   \<and> fst (load_pdf corrupt_env ''pdfs/broken.pdf'' bound_server)
       = Inl ''cannot open broken document''
   \<and> sessions (handle_load_pdf corrupt_env ''broken'' bound_server) = sessions bound_server
   \<and> (\<exists>err. response (handle_load_pdf corrupt_env ''broken'' bound_server)
             = (''pdfLoaded'', JDict [(''success'', JBool False), (''error'', JStr err)]))"
proof -
  have m: "(''session_5000_0a1b2c3d'', sample_session) \<in> set (sessions bound_server)"
    by (simp add: bound_server_eq sample_session_def)
  have x: "\<not> path_exists sample_env (''pdfs/'' @ ''missing'' @ ''.pdf'')"
    by (simp add: sample_env_def)
  have y: "fst (load_pdf corrupt_env (''pdfs/'' @ ''broken'' @ ''.pdf'') bound_server)
             = Inl ''cannot open broken document''"
    by (simp add: bound_server_eq load_pdf_def corrupt_env_def sample_env_def)
  note t1 = bound_document_is_cached
    [where s = bound_server and e = sample_env and pdf_id = "''missing''" and s' = bound_server]
  note t2 = bound_document_is_cached
    [where s = bound_server and e = corrupt_env and pdf_id = "''broken''" and s' = bound_server]
  from t1 bound_server_reachable m sample_session_pdf(1)
  have a: "''pdfs/sample.pdf'' \<in> dom (pdf_cache bound_server)" by blast
  from t1 x have b: "sessions (handle_load_pdf sample_env ''missing'' bound_server)
        = sessions bound_server
      \<and> (\<exists>err. response (handle_load_pdf sample_env ''missing'' bound_server)
             = (''pdfLoaded'', JDict [(''success'', JBool False), (''error'', JStr err)]))"
    by blast
  from t2 y have c: "sessions (handle_load_pdf corrupt_env ''broken'' bound_server)
        = sessions bound_server
      \<and> (\<exists>err. response (handle_load_pdf corrupt_env ''broken'' bound_server)
             = (''pdfLoaded'', JDict [(''success'', JBool False), (''error'', JStr err)]))"
    by blast
  from m sample_session_pdf(1) a x b y c show ?thesis by simp
qed

section \<open>The cleanup sweep\<close>

lemma paged_sessions:
  "sessions paged = [(''session_5000_0a1b2c3d'', sample_session),
                     (''session_5060_9e8f7a6b'', second_session)]"
  by (simp add: paged_def first_bound_eq sample_session_def second_session_def)

lemma paged_temp_pages:
  "temp_pages paged =
     [''session_5000_0a1b2c3d'' \<mapsto> [''page_1.png'' \<mapsto> [137, 80, 78, 71]]]"
  by (simp add: paged_def first_bound_eq eval_defs)

text \<open>
  As long as no \<open>rmtree\<close> fails, the loop removes the snapshot's expired keys from
  the table and their directories from disk, and nothing else.
\<close>

lemma cleanup_loop_all_deleted:
  assumes "\<forall>kr\<in>set items. ct - last_activity (snd kr) > to \<and> fst kr \<in> dom (temp_pages s)
             \<longrightarrow> rmtree_error e (fst kr) = None"
  shows "sessions (cleanup_loop e ct to items s)
           = filter (\<lambda>kr. fst kr \<notin> fst ` {kr \<in> set items. ct - last_activity (snd kr) > to})
               (sessions s)
         \<and> temp_pages (cleanup_loop e ct to items s)
           = (\<lambda>d. if d \<in> fst ` {kr \<in> set items. ct - last_activity (snd kr) > to}
                  then None else temp_pages s d)"
  using assms
proof (induction items arbitrary: s)
  case Nil
  show ?case by simp
next
  case (Cons kr items)
  obtain k r where kr: "kr = (k, r)" by (cases kr)
  let ?X = "fst ` {kr \<in> set items. ct - last_activity (snd kr) > to}"
  show ?case
  proof (cases "ct - last_activity r > to")
    case False
    then have X: "fst ` {x \<in> set (kr # items). ct - last_activity (snd x) > to} = ?X"
      by (auto simp: kr)
    from Cons.prems have "\<forall>kr\<in>set items. ct - last_activity (snd kr) > to
        \<and> fst kr \<in> dom (temp_pages s) \<longrightarrow> rmtree_error e (fst kr) = None"
      by simp
    from Cons.IH [OF this] False show ?thesis
      unfolding X by (simp add: kr)
  next
    case True
    then have X: "fst ` {x \<in> set (kr # items). ct - last_activity (snd x) > to} = insert k ?X"
      by (force simp: kr)
    show ?thesis
    proof (cases "k \<in> dom (temp_pages s)")
      case False
      let ?s = "s\<lparr>sessions := dict_del k (sessions s)\<rparr>"
      from Cons.prems have "\<forall>kr\<in>set items. ct - last_activity (snd kr) > to
          \<and> fst kr \<in> dom (temp_pages ?s) \<longrightarrow> rmtree_error e (fst kr) = None"
        by simp
      from Cons.IH [OF this] have
        a: "sessions (cleanup_loop e ct to items ?s)
              = filter (\<lambda>kr. fst kr \<notin> ?X) (dict_del k (sessions s))"
        and b: "temp_pages (cleanup_loop e ct to items ?s)
              = (\<lambda>d. if d \<in> ?X then None else temp_pages s d)"
        by (simp_all cong: if_cong)
      have c: "cleanup_loop e ct to (kr # items) s = cleanup_loop e ct to items ?s"
        using True False by (simp add: kr)
      from False have "temp_pages s k = None" by auto
      then have "(\<lambda>d. if d \<in> ?X then None else temp_pages s d)
               = (\<lambda>d. if d \<in> insert k ?X then None else temp_pages s d)"
        by auto
      with a b show ?thesis
        unfolding X c by (simp add: dict_del_def conj_commute)
    next
      case dir: True
      let ?s = "s\<lparr>temp_pages := (temp_pages s)(k := None),
                   sessions := dict_del k (sessions s)\<rparr>"
      from Cons.prems True dir have ok: "rmtree_error e k = None" by (simp add: kr)
      from Cons.prems have "\<forall>kr\<in>set items. ct - last_activity (snd kr) > to
          \<and> fst kr \<in> dom (temp_pages ?s) \<longrightarrow> rmtree_error e (fst kr) = None"
        by (auto split: if_splits)
      from Cons.IH [OF this] have
        a: "sessions (cleanup_loop e ct to items ?s)
              = filter (\<lambda>kr. fst kr \<notin> ?X) (dict_del k (sessions s))"
        and b: "temp_pages (cleanup_loop e ct to items ?s)
              = (\<lambda>d. if d \<in> ?X then None else ((temp_pages s)(k := None)) d)"
        by (simp_all cong: if_cong)
      have c: "cleanup_loop e ct to (kr # items) s = cleanup_loop e ct to items ?s"
        using True dir ok by (simp add: kr)
      have "(\<lambda>d. if d \<in> ?X then None else ((temp_pages s)(k := None)) d)
               = (\<lambda>d. if d \<in> insert k ?X then None else temp_pages s d)"
        by auto
      with a b show ?thesis
        unfolding X c by (simp add: dict_del_def conj_commute)
    qed
  qed
qed

lemma cleanup_loop_append:
  assumes "\<forall>kr\<in>set xs. ct - last_activity (snd kr) > to \<and> fst kr \<in> dom (temp_pages s)
             \<longrightarrow> rmtree_error e (fst kr) = None"
  shows "cleanup_loop e ct to (xs @ ys) s = cleanup_loop e ct to ys (cleanup_loop e ct to xs s)"
  using assms
proof (induction xs arbitrary: s)
  case Nil
  show ?case by simp
next
  case (Cons kr xs)
  obtain k r where kr: "kr = (k, r)" by (cases kr)
  have rest: "\<forall>kr\<in>set xs. ct - last_activity (snd kr) > to \<and> fst kr \<in> dom (temp_pages s')
             \<longrightarrow> rmtree_error e (fst kr) = None"
    if "dom (temp_pages s') \<subseteq> dom (temp_pages s)" for s'
  proof (intro ballI impI)
    fix x assume x: "x \<in> set xs"
      and c: "ct - last_activity (snd x) > to \<and> fst x \<in> dom (temp_pages s')"
    from c that have "fst x \<in> dom (temp_pages s)" by blast
    with Cons.prems x c show "rmtree_error e (fst x) = None" by simp
  qed
  show ?case
  proof (cases "ct - last_activity r > to")
    case False
    with Cons.IH [OF rest [of s]] show ?thesis by (simp add: kr)
  next
    case True
    show ?thesis
    proof (cases "k \<in> dom (temp_pages s)")
      case False
      with True Cons.IH [OF rest [of "s\<lparr>sessions := dict_del k (sessions s)\<rparr>"]]
      show ?thesis by (simp add: kr)
    next
      case dir: True
      from Cons.prems True dir have ok: "rmtree_error e k = None" by (simp add: kr)
      have "dom (temp_pages (s\<lparr>temp_pages := (temp_pages s)(k := None),
                   sessions := dict_del k (sessions s)\<rparr>)) \<subseteq> dom (temp_pages s)"
        by auto
      from Cons.IH [OF rest [OF this]] True dir ok show ?thesis by (simp add: kr)
    qed
  qed
qed

lemma distinct_keys_filter:
  assumes "distinct (map fst d)"
  shows "filter (\<lambda>kr. fst kr \<notin> fst ` {x \<in> set d. P (snd x)}) d = filter (\<lambda>kr. \<not> P (snd kr)) d"
proof (rule filter_cong [OF refl])
  fix kr assume m: "kr \<in> set d"
  have "fst kr \<in> fst ` {x \<in> set d. P (snd x)} \<longleftrightarrow> P (snd kr)"
  proof
    assume "fst kr \<in> fst ` {x \<in> set d. P (snd x)}"
    then obtain x where x: "x \<in> set d" "P (snd x)" "fst x = fst kr" by auto
    from assms x(1) m x(3) have "x = kr" by (metis eq_key_imp_eq_value prod.collapse)
    with x show "P (snd kr)" by simp
  next
    assume "P (snd kr)"
    with m show "fst kr \<in> fst ` {x \<in> set d. P (snd x)}" by auto
  qed
  then show "(fst kr \<notin> fst ` {x \<in> set d. P (snd x)}) = (\<not> P (snd kr))" by simp
qed

text \<open>
  Whether or not a removal fails, the loop touches only the snapshot's expired keys.
\<close>

lemma cleanup_loop_spares_the_rest:
  "filter (\<lambda>kr. fst kr \<notin> fst ` {kr \<in> set items. ct - last_activity (snd kr) > to})
     (sessions (cleanup_loop e ct to items s))
   = filter (\<lambda>kr. fst kr \<notin> fst ` {kr \<in> set items. ct - last_activity (snd kr) > to})
       (sessions s)
   \<and> (\<forall>d. d \<notin> fst ` {kr \<in> set items. ct - last_activity (snd kr) > to} \<longrightarrow>
          temp_pages (cleanup_loop e ct to items s) d = temp_pages s d)"
proof (induction items arbitrary: s)
  case Nil
  show ?case by simp
next
  case (Cons kr items)
  obtain k r where kr: "kr = (k, r)" by (cases kr)
  let ?X = "fst ` {kr \<in> set items. ct - last_activity (snd kr) > to}"
  show ?case
  proof (cases "ct - last_activity r > to")
    case False
    then have X: "fst ` {x \<in> set (kr # items). ct - last_activity (snd x) > to} = ?X"
      by (auto simp: kr)
    from Cons.IH [of s] False show ?thesis unfolding X by (simp add: kr)
  next
    case True
    then have X: "fst ` {x \<in> set (kr # items). ct - last_activity (snd x) > to} = insert k ?X"
      by (force simp: kr)
    have split: "filter (\<lambda>kr. fst kr \<notin> insert k ?X) l
                   = filter (\<lambda>kr. fst kr \<noteq> k) (filter (\<lambda>kr. fst kr \<notin> ?X) l)" for l :: "(string \<times> session) list"
      by (induction l) auto
    have step: "filter (\<lambda>kr. fst kr \<notin> insert k ?X) (sessions (cleanup_loop e ct to items s'))
                  = filter (\<lambda>kr. fst kr \<notin> insert k ?X) (sessions s)
                \<and> (\<forall>d. d \<notin> insert k ?X \<longrightarrow>
                      temp_pages (cleanup_loop e ct to items s') d = temp_pages s d)"
      if s': "sessions s' = dict_del k (sessions s)"
        "\<forall>d. d \<noteq> k \<longrightarrow> temp_pages s' d = temp_pages s d" for s'
    proof -
      from Cons.IH [of s'] have
        a: "filter (\<lambda>kr. fst kr \<notin> ?X) (sessions (cleanup_loop e ct to items s'))
              = filter (\<lambda>kr. fst kr \<notin> ?X) (dict_del k (sessions s))"
        and b: "\<forall>d. d \<notin> ?X \<longrightarrow> temp_pages (cleanup_loop e ct to items s') d = temp_pages s' d"
        by (simp_all add: s'(1))
      have "filter (\<lambda>kr. fst kr \<notin> insert k ?X) (sessions (cleanup_loop e ct to items s'))
              = filter (\<lambda>kr. fst kr \<noteq> k) (filter (\<lambda>kr. fst kr \<notin> ?X) (dict_del k (sessions s)))"
        by (simp only: split a)
      also have "\<dots> = filter (\<lambda>kr. fst kr \<notin> insert k ?X) (sessions s)"
        by (simp add: dict_del_def conj_commute)
      finally have 1: "filter (\<lambda>kr. fst kr \<notin> insert k ?X) (sessions (cleanup_loop e ct to items s'))
              = filter (\<lambda>kr. fst kr \<notin> insert k ?X) (sessions s)" .
      from b s'(2) have 2: "\<forall>d. d \<notin> insert k ?X \<longrightarrow>
                      temp_pages (cleanup_loop e ct to items s') d = temp_pages s d"
        by simp
      from 1 2 show ?thesis by (rule conjI)
    qed
    show ?thesis
    proof (cases "k \<in> dom (temp_pages s)")
      case False
      have "cleanup_loop e ct to (kr # items) s
              = cleanup_loop e ct to items (s\<lparr>sessions := dict_del k (sessions s)\<rparr>)"
        using True False by (simp add: kr)
      with step [of "s\<lparr>sessions := dict_del k (sessions s)\<rparr>"] show ?thesis
        unfolding X by simp
    next
      case dir: True
      show ?thesis
      proof (cases "rmtree_error e k")
        case (Some err)
        with True dir have "cleanup_loop e ct to (kr # items) s = s" by (simp add: kr)
        then show ?thesis by simp
      next
        case None
        with True dir have "cleanup_loop e ct to (kr # items) s
              = cleanup_loop e ct to items
                  (s\<lparr>temp_pages := (temp_pages s)(k := None),
                     sessions := dict_del k (sessions s)\<rparr>)"
          by (simp add: kr)
        with step [of "s\<lparr>temp_pages := (temp_pages s)(k := None),
                         sessions := dict_del k (sessions s)\<rparr>"] show ?thesis
          unfolding X by simp
      qed
    qed
  qed
qed

lemma expired_key_iff:
  assumes "distinct (map fst d)" "kr \<in> set d"
  shows "fst kr \<in> fst ` {x \<in> set d. P (snd x)} \<longleftrightarrow> P (snd kr)"
proof
  assume "fst kr \<in> fst ` {x \<in> set d. P (snd x)}"
  then obtain x where x: "x \<in> set d" "P (snd x)" "fst x = fst kr" by auto
  from assms x(1,3) have "x = kr" by (metis eq_key_imp_eq_value prod.collapse)
  with x show "P (snd kr)" by simp
next
  assume "P (snd kr)"
  with assms(2) show "fst kr \<in> fst ` {x \<in> set d. P (snd x)}" by auto
qed

text \<open>
  C8, as the code has it. In every sweep, whatever the file system does, the sessions
  whose last activity is at most 30 minutes old stay in the table, in order and with
  their records unchanged, their directories are as they were, and no record of the table
  is altered. A sweep in which no directory removal fails removes exactly the sessions
  whose last activity is older than 30 minutes, deletes the directory of each of them
  and leaves every other directory as it was. Timestamps are exact reals; the table has
  distinct keys, being a dict.
\<close>

theorem sweep_keeps_fresh_and_removes_expired:
  assumes "distinct (map fst (sessions s))"
  shows "filter (\<lambda>kr. \<not> expired e (snd kr)) (sessions (cleanup_old_sessions e s))
           = filter (\<lambda>kr. \<not> expired e (snd kr)) (sessions s)
       \<and> (\<forall>kr\<in>set (sessions s). \<not> expired e (snd kr) \<longrightarrow>
            temp_pages (cleanup_old_sessions e s) (fst kr) = temp_pages s (fst kr))
       \<and> set (sessions (cleanup_old_sessions e s)) \<subseteq> set (sessions s)
       \<and> ((\<forall>kr\<in>set (sessions s). expired e (snd kr) \<and> fst kr \<in> dom (temp_pages s)
              \<longrightarrow> rmtree_error e (fst kr) = None) \<longrightarrow>
            sessions (cleanup_old_sessions e s)
              = filter (\<lambda>kr. \<not> expired e (snd kr)) (sessions s)
            \<and> (\<forall>kr\<in>set (sessions s).
                 temp_pages (cleanup_old_sessions e s) (fst kr)
                   = (if expired e (snd kr) then None else temp_pages s (fst kr)))
            \<and> (\<forall>d. d \<notin> fst ` set (sessions s) \<longrightarrow>
                 temp_pages (cleanup_old_sessions e s) d = temp_pages s d))"
proof -
  let ?X = "fst ` {kr \<in> set (sessions s). now e - last_activity (snd kr) > 30 * 60}"
  let ?s' = "cleanup_loop e (now e) (30 * 60) (sessions s) s"
  have res: "cleanup_old_sessions e s = ?s'" by (simp add: cleanup_old_sessions_def)
  have sub: "set (sessions ?s') \<subseteq> set (sessions s)"
    using cleanup_loop_shrinks [of e "now e" "30 * 60" "sessions s" s] by simp
  have x: "fst kr \<in> ?X \<longleftrightarrow> expired e (snd kr)" if "kr \<in> set (sessions s)" for kr
    using expired_key_iff [OF assms that, of "\<lambda>r. now e - last_activity r > 30 * 60"]
    by (simp add: expired_def)
  from cleanup_loop_spares_the_rest
    [where items = "sessions s" and ct = "now e" and to = "30 * 60" and e = e and s = s] have
    a: "filter (\<lambda>kr. fst kr \<notin> ?X) (sessions ?s') = filter (\<lambda>kr. fst kr \<notin> ?X) (sessions s)"
    and b: "\<forall>d. d \<notin> ?X \<longrightarrow> temp_pages ?s' d = temp_pages s d"
    by blast+
  have "filter (\<lambda>kr. \<not> expired e (snd kr)) (sessions ?s') = filter (\<lambda>kr. fst kr \<notin> ?X) (sessions ?s')"
    using sub x by (intro filter_cong refl) auto
  also note a
  also have "filter (\<lambda>kr. fst kr \<notin> ?X) (sessions s) = filter (\<lambda>kr. \<not> expired e (snd kr)) (sessions s)"
    using x by (intro filter_cong refl) auto
  finally have 1: "filter (\<lambda>kr. \<not> expired e (snd kr)) (sessions (cleanup_old_sessions e s))
           = filter (\<lambda>kr. \<not> expired e (snd kr)) (sessions s)"
    by (simp only: res)
  have 2: "\<forall>kr\<in>set (sessions s). \<not> expired e (snd kr) \<longrightarrow>
            temp_pages (cleanup_old_sessions e s) (fst kr) = temp_pages s (fst kr)"
    unfolding res using b x by blast
  have 3: "set (sessions (cleanup_old_sessions e s)) \<subseteq> set (sessions s)"
    unfolding res by (rule sub)
  have 4: "sessions (cleanup_old_sessions e s)
              = filter (\<lambda>kr. \<not> expired e (snd kr)) (sessions s)
            \<and> (\<forall>kr\<in>set (sessions s).
                 temp_pages (cleanup_old_sessions e s) (fst kr)
                   = (if expired e (snd kr) then None else temp_pages s (fst kr)))
            \<and> (\<forall>d. d \<notin> fst ` set (sessions s) \<longrightarrow>
                 temp_pages (cleanup_old_sessions e s) d = temp_pages s d)"
    if ok: "\<forall>kr\<in>set (sessions s). expired e (snd kr) \<and> fst kr \<in> dom (temp_pages s)
              \<longrightarrow> rmtree_error e (fst kr) = None"
  proof -
    from ok have "\<forall>kr\<in>set (sessions s). now e - last_activity (snd kr) > 30 * 60
        \<and> fst kr \<in> dom (temp_pages s) \<longrightarrow> rmtree_error e (fst kr) = None"
      by (simp add: expired_def)
    from cleanup_loop_all_deleted [OF this] have
      c: "sessions ?s' = filter (\<lambda>kr. fst kr \<notin> ?X) (sessions s)"
      and d: "temp_pages ?s' = (\<lambda>d. if d \<in> ?X then None else temp_pages s d)"
      by simp_all
    have "sessions ?s' = filter (\<lambda>kr. \<not> expired e (snd kr)) (sessions s)"
      unfolding c using x by (intro filter_cong refl) auto
    moreover have "\<forall>kr\<in>set (sessions s). temp_pages ?s' (fst kr)
                   = (if expired e (snd kr) then None else temp_pages s (fst kr))"
      unfolding d using x by simp
    moreover have "\<forall>d. d \<notin> fst ` set (sessions s) \<longrightarrow> temp_pages ?s' d = temp_pages s d"
      unfolding d by auto
    ultimately show ?thesis unfolding res by blast
  qed
  from 1 2 3 4 show ?thesis by blast
qed


theorem sweep_keeps_fresh_and_removes_expired_witness:
  "expired mid_env sample_session \<and> \<not> expired mid_env second_session
   \<and> sessions (cleanup_old_sessions mid_env paged)
       = [(''session_5060_9e8f7a6b'', second_session)]
   \<and> temp_pages paged ''session_5000_0a1b2c3d'' = Some [''page_1.png'' \<mapsto> [137, 80, 78, 71]]
   \<and> temp_pages (cleanup_old_sessions mid_env paged) ''session_5000_0a1b2c3d'' = None
   \<and> temp_pages (cleanup_old_sessions mid_env paged) ''session_5060_9e8f7a6b''
       = temp_pages paged ''session_5060_9e8f7a6b''
   \<and> rmtree_error mid_denied_env ''session_5000_0a1b2c3d'' = Some ''Permission denied''
   \<and> filter (\<lambda>kr. \<not> expired mid_denied_env (snd kr))
         (sessions (cleanup_old_sessions mid_denied_env paged))
       = [(''session_5060_9e8f7a6b'', second_session)]
   \<and> temp_pages (cleanup_old_sessions mid_denied_env paged) ''session_5060_9e8f7a6b''
       = temp_pages paged ''session_5060_9e8f7a6b''"
proof -
  have x: "expired mid_env sample_session" "\<not> expired mid_env second_session"
    "expired mid_denied_env sample_session" "\<not> expired mid_denied_env second_session"
    by (simp_all add: expired_def mid_denied_env_def mid_env_def sample_env_def
          sample_session_def second_session_def)
  have d: "distinct (map fst (sessions paged))" by (simp add: paged_sessions)
  have ok: "\<forall>kr\<in>set (sessions paged). expired mid_env (snd kr)
            \<and> fst kr \<in> dom (temp_pages paged) \<longrightarrow> rmtree_error mid_env (fst kr) = None"
    by (simp add: mid_env_def sample_env_def)
  note t = sweep_keeps_fresh_and_removes_expired [OF d, of mid_env]
  note u = sweep_keeps_fresh_and_removes_expired [OF d, of mid_denied_env]
  from t ok have "sessions (cleanup_old_sessions mid_env paged)
       = filter (\<lambda>kr. \<not> expired mid_env (snd kr)) (sessions paged)"
    by blast
  with x have a: "sessions (cleanup_old_sessions mid_env paged)
       = [(''session_5060_9e8f7a6b'', second_session)]"
    by (simp add: paged_sessions)
  from t ok have "\<forall>kr\<in>set (sessions paged).
            temp_pages (cleanup_old_sessions mid_env paged) (fst kr)
              = (if expired mid_env (snd kr) then None else temp_pages paged (fst kr))"
    by blast
  with x have b: "temp_pages (cleanup_old_sessions mid_env paged) ''session_5000_0a1b2c3d'' = None"
    and c: "temp_pages (cleanup_old_sessions mid_env paged) ''session_5060_9e8f7a6b''
       = temp_pages paged ''session_5060_9e8f7a6b''"
    by (simp_all add: paged_sessions)
  have p: "temp_pages paged ''session_5000_0a1b2c3d'' = Some [''page_1.png'' \<mapsto> [137, 80, 78, 71]]"
    by (simp add: paged_temp_pages)
  have f: "rmtree_error mid_denied_env ''session_5000_0a1b2c3d'' = Some ''Permission denied''"
    by (simp add: mid_denied_env_def denied_env_def)
  from u have "filter (\<lambda>kr. \<not> expired mid_denied_env (snd kr))
         (sessions (cleanup_old_sessions mid_denied_env paged))
       = filter (\<lambda>kr. \<not> expired mid_denied_env (snd kr)) (sessions paged)"
    by (rule conjunct1)
  with x have g: "filter (\<lambda>kr. \<not> expired mid_denied_env (snd kr))
         (sessions (cleanup_old_sessions mid_denied_env paged))
       = [(''session_5060_9e8f7a6b'', second_session)]"
    by (simp add: paged_sessions)
  from u have "\<forall>kr\<in>set (sessions paged). \<not> expired mid_denied_env (snd kr) \<longrightarrow>
            temp_pages (cleanup_old_sessions mid_denied_env paged) (fst kr)
              = temp_pages paged (fst kr)"
    by (rule conjunct2 [THEN conjunct1])
  with x have h: "temp_pages (cleanup_old_sessions mid_denied_env paged) ''session_5060_9e8f7a6b''
       = temp_pages paged ''session_5060_9e8f7a6b''"
    by (simp add: paged_sessions)
  from x(1,2) a p b c f g h show ?thesis by (intro conjI)
qed

text \<open>
  C8 as stated fails: with a directory that cannot be deleted, both sessions of \<open>paged\<close>
  have expired and the sweep removes neither session nor directory.
\<close>

theorem sweep_leaves_expired_counterexample:
  "filter (\<lambda>kr. \<not> expired denied_env (snd kr)) (sessions paged) = []
   \<and> length (sessions paged) = 2
   \<and> sessions (cleanup_old_sessions denied_env paged) = sessions paged
   \<and> temp_pages (cleanup_old_sessions denied_env paged) ''session_5000_0a1b2c3d''
       = Some [''page_1.png'' \<mapsto> [137, 80, 78, 71]]"
  by (simp add: paged_sessions paged_temp_pages cleanup_old_sessions_def expired_def
        denied_env_def sample_env_def sample_session_def second_session_def)

text \<open>
  C4 as stated fails: both sessions have expired, deleting the first one's directory
  fails, deleting the second one's would not (it has no directory), and the sweep leaves
  both in the table.
\<close>

theorem sweep_aborted_counterexample:
  "expired denied_env sample_session \<and> expired denied_env second_session
   \<and> rmtree_error denied_env ''session_5000_0a1b2c3d'' = Some ''Permission denied''
   \<and> rmtree_error denied_env ''session_5060_9e8f7a6b'' = None
   \<and> sessions (cleanup_old_sessions denied_env paged)
       = [(''session_5000_0a1b2c3d'', sample_session),
          (''session_5060_9e8f7a6b'', second_session)]"
  by (simp add: paged_sessions paged_temp_pages cleanup_old_sessions_def expired_def
        denied_env_def sample_env_def sample_session_def second_session_def)

text \<open>
  C4, as the code has it. The \<open>try\<close> encloses the whole loop, so the first directory
  removal that fails ends the sweep: the expired sessions before it in the table have
  been removed with their directories, the failing session and every session after it
  stay in the table, expired or not, and their directories are untouched.
\<close>

theorem sweep_stops_at_first_failure:
  assumes "sessions s = pre @ (k, r) # post"
    and "distinct (map fst (sessions s))"
    and "expired e r" "k \<in> dom (temp_pages s)" "rmtree_error e k = Some err"
    and "\<forall>kr\<in>set pre. expired e (snd kr) \<and> fst kr \<in> dom (temp_pages s)
           \<longrightarrow> rmtree_error e (fst kr) = None"
  shows "sessions (cleanup_old_sessions e s)
           = filter (\<lambda>kr. \<not> expired e (snd kr)) pre @ (k, r) # post
       \<and> (\<forall>kr\<in>set pre. temp_pages (cleanup_old_sessions e s) (fst kr)
              = (if expired e (snd kr) then None else temp_pages s (fst kr)))
       \<and> (\<forall>d. d \<notin> fst ` set pre \<longrightarrow> temp_pages (cleanup_old_sessions e s) d = temp_pages s d)"
proof -
  let ?ct = "now e" and ?to = "30 * 60 :: real"
  let ?X = "fst ` {kr \<in> set pre. ?ct - last_activity (snd kr) > ?to}"
  let ?s1 = "cleanup_loop e ?ct ?to pre s"
  from assms(6) have ok: "\<forall>kr\<in>set pre. ?ct - last_activity (snd kr) > ?to
      \<and> fst kr \<in> dom (temp_pages s) \<longrightarrow> rmtree_error e (fst kr) = None"
    by (simp add: expired_def)
  from cleanup_loop_all_deleted [OF ok] have
    a: "sessions ?s1 = filter (\<lambda>kr. fst kr \<notin> ?X) (sessions s)"
    and b: "temp_pages ?s1 = (\<lambda>d. if d \<in> ?X then None else temp_pages s d)"
    by simp_all
  from assms(1,2) have dp: "distinct (map fst pre)"
    and kp: "k \<notin> fst ` set pre" and pp: "fst ` set post \<inter> fst ` set pre = {}"
    by auto
  have X: "?X \<subseteq> fst ` set pre" by auto
  from kp X have kX: "k \<notin> ?X" by blast
  with b assms(4) have dir: "k \<in> dom (temp_pages ?s1)" by auto
  have "cleanup_old_sessions e s = cleanup_loop e ?ct ?to ((k, r) # post) ?s1"
    using cleanup_loop_append [OF ok, of "(k, r) # post"]
    by (simp add: cleanup_old_sessions_def assms(1))
  also have "\<dots> = ?s1"
    using assms(3,5) dir by (simp add: expired_def)
  finally have res: "cleanup_old_sessions e s = ?s1" .
  have "filter (\<lambda>kr. fst kr \<notin> ?X) post = post"
    using pp X by (intro filter_True) (auto simp: disjoint_iff)
  moreover have "filter (\<lambda>kr. fst kr \<notin> ?X) pre = filter (\<lambda>kr. \<not> expired e (snd kr)) pre"
    using distinct_keys_filter [OF dp, of "\<lambda>r. ?ct - last_activity r > ?to"]
    by (simp add: expired_def [abs_def])
  moreover have "sessions (cleanup_old_sessions e s)
           = filter (\<lambda>kr. fst kr \<notin> ?X) pre @ filter (\<lambda>kr. fst kr \<notin> ?X) ((k, r) # post)"
    by (simp only: res a assms(1) filter_append)
  moreover have "filter (\<lambda>kr. fst kr \<notin> ?X) ((k, r) # post)
           = (k, r) # filter (\<lambda>kr. fst kr \<notin> ?X) post"
    using kX by simp
  ultimately have s: "sessions (cleanup_old_sessions e s)
           = filter (\<lambda>kr. \<not> expired e (snd kr)) pre @ (k, r) # post"
    by (simp only:)
  have x: "fst kr \<in> ?X \<longleftrightarrow> expired e (snd kr)" if "kr \<in> set pre" for kr
  proof
    assume "fst kr \<in> ?X"
    then obtain y where y: "y \<in> set pre" "?ct - last_activity (snd y) > ?to" "fst y = fst kr"
      by auto
    from dp y(1) that y(3) have "y = kr" by (metis eq_key_imp_eq_value prod.collapse)
    with y show "expired e (snd kr)" by (simp add: expired_def)
  next
    assume "expired e (snd kr)"
    with that show "fst kr \<in> ?X" by (auto simp: expired_def)
  qed
  have t1: "\<forall>kr\<in>set pre. temp_pages (cleanup_old_sessions e s) (fst kr)
              = (if expired e (snd kr) then None else temp_pages s (fst kr))"
    unfolding res b using x by simp
  have t2: "\<forall>d. d \<notin> fst ` set pre \<longrightarrow> temp_pages (cleanup_old_sessions e s) d = temp_pages s d"
    unfolding res b using X by auto
  from s t1 t2 show ?thesis by blast
qed

theorem sweep_stops_at_first_failure_witness:
  "sessions (cleanup_old_sessions denied_env three_sessions)
     = [(''session_5000_0a1b2c3d'', sample_session), (''session_5060_9e8f7a6b'', second_session)]
   \<and> temp_pages (cleanup_old_sessions denied_env three_sessions) ''session_100_5f5f5f5f'' = None
   \<and> temp_pages (cleanup_old_sessions denied_env three_sessions) ''session_5000_0a1b2c3d''
     = temp_pages three_sessions ''session_5000_0a1b2c3d''
   \<and> expired denied_env second_session"
proof -
  have s: "sessions three_sessions
             = [(''session_100_5f5f5f5f'', old_session)]
               @ (''session_5000_0a1b2c3d'', sample_session)
               # [(''session_5060_9e8f7a6b'', second_session)]"
    by (simp add: three_sessions_def paged_sessions)
  have d: "distinct (map fst (sessions three_sessions))"
    by (simp add: three_sessions_def paged_sessions)
  have x: "expired denied_env sample_session" "expired denied_env old_session"
    "expired denied_env second_session"
    by (simp_all add: expired_def denied_env_def sample_env_def sample_session_def
          old_session_def second_session_def)
  have dir: "''session_5000_0a1b2c3d'' \<in> dom (temp_pages three_sessions)"
    by (simp add: three_sessions_def paged_temp_pages)
  have f: "rmtree_error denied_env ''session_5000_0a1b2c3d'' = Some ''Permission denied''"
    by (simp add: denied_env_def)
  have p: "\<forall>kr\<in>set [(''session_100_5f5f5f5f'', old_session)].
             expired denied_env (snd kr) \<and> fst kr \<in> dom (temp_pages three_sessions)
             \<longrightarrow> rmtree_error denied_env (fst kr) = None"
    by (simp add: denied_env_def)
  note t = sweep_stops_at_first_failure [OF s d x(1) dir f p]
  from t have a: "sessions (cleanup_old_sessions denied_env three_sessions)
        = filter (\<lambda>kr. \<not> expired denied_env (snd kr)) [(''session_100_5f5f5f5f'', old_session)]
          @ (''session_5000_0a1b2c3d'', sample_session)
          # [(''session_5060_9e8f7a6b'', second_session)]"
    by (rule conjunct1)
  from t have b: "\<forall>kr\<in>set [(''session_100_5f5f5f5f'', old_session)].
        temp_pages (cleanup_old_sessions denied_env three_sessions) (fst kr)
          = (if expired denied_env (snd kr) then None else temp_pages three_sessions (fst kr))"
    by (rule conjunct2 [THEN conjunct1])
  from t have c: "\<forall>d. d \<notin> fst ` set [(''session_100_5f5f5f5f'', old_session)] \<longrightarrow>
        temp_pages (cleanup_old_sessions denied_env three_sessions) d = temp_pages three_sessions d"
    by (rule conjunct2 [THEN conjunct2])
  from c have c': "temp_pages (cleanup_old_sessions denied_env three_sessions)
        ''session_5000_0a1b2c3d'' = temp_pages three_sessions ''session_5000_0a1b2c3d''"
    by simp
  from a b c' x show ?thesis by simp
qed

section \<open>Rendering: zoom and size\<close>

lemma round_aspect_bounds:
  assumes "0 < x"
  shows "1 \<le> round_aspect x key"
    and "round_aspect x key \<le> \<lceil>x\<rceil>"
    and "\<bar>real_of_int (round_aspect x key) - x\<bar> < 1"
proof -
  have f: "real_of_int \<lfloor>x\<rfloor> \<le> x" "x < real_of_int \<lfloor>x\<rfloor> + 1" by simp_all
  have c: "real_of_int \<lceil>x\<rceil> - 1 < x" "x \<le> real_of_int \<lceil>x\<rceil>"
    using ceiling_correct [of x] by simp_all
  from assms have "0 < \<lceil>x\<rceil>" by simp
  then have p2: "1 \<le> \<lceil>x\<rceil>" by linarith
  from assms have p1: "0 \<le> \<lfloor>x\<rfloor>" by simp
  note p = p1 p2
  have fc: "\<lfloor>x\<rfloor> \<le> \<lceil>x\<rceil>" by simp
  show "1 \<le> round_aspect x key" by (simp add: round_aspect_def)
  show "round_aspect x key \<le> \<lceil>x\<rceil>"
    using p fc by (simp add: round_aspect_def)
  show "\<bar>real_of_int (round_aspect x key) - x\<bar> < 1"
  proof (cases "1 \<le> \<lfloor>x\<rfloor>")
    case True
    with fc have c1: "1 \<le> \<lceil>x\<rceil>" by linarith
    show ?thesis
    proof (cases "key \<lfloor>x\<rfloor> \<le> key \<lceil>x\<rceil>")
      case k: True
      then have "round_aspect x key = max \<lfloor>x\<rfloor> 1" by (simp only: round_aspect_def if_True)
      also from True have "\<dots> = \<lfloor>x\<rfloor>" by (rule max_absorb1)
      finally have r: "round_aspect x key = \<lfloor>x\<rfloor>" .
      from f show ?thesis unfolding r by linarith
    next
      case k: False
      then have "round_aspect x key = max \<lceil>x\<rceil> 1" by (simp only: round_aspect_def if_False)
      also from c1 have "\<dots> = \<lceil>x\<rceil>" by (rule max_absorb1)
      finally have r: "round_aspect x key = \<lceil>x\<rceil>" .
      from c show ?thesis unfolding r by linarith
    qed
  next
    case False
    with p(1) have z: "\<lfloor>x\<rfloor> = 0" by linarith
    with f have "x < 1" by simp
    with assms have "\<lceil>x\<rceil> = 1" by (simp add: ceiling_eq_iff) 
    with z have "round_aspect x key = 1" by (simp add: round_aspect_def)
    with assms \<open>x < 1\<close> show ?thesis by simp
  qed
qed

lemma preserve_aspect_ratio_square:
  assumes T: "0 < T" and w: "0 < w" and h: "0 < h"
  shows "(preserve_aspect_ratio (T, T) (w, h) = Inr None \<and> w \<le> T \<and> h \<le> T)
       \<or> (\<exists>x y. preserve_aspect_ratio (T, T) (w, h) = Inr (Some (x, y))
             \<and> 1 \<le> x \<and> x \<le> T \<and> x \<le> w \<and> 1 \<le> y \<and> y \<le> T \<and> y \<le> h
             \<and> \<bar>x * h - y * w\<bar> < max w h)"
proof (cases "T \<ge> w \<and> T \<ge> h")
  case True
  then show ?thesis by (simp add: preserve_aspect_ratio_def)
next
  case False
  let ?a = "real_of_int w / real_of_int h"
  show ?thesis
  proof (cases "w \<le> h")
    case True
    with False have Th: "T < h" by auto
    let ?n = "real_of_int T * ?a"
    let ?x = "round_aspect ?n (\<lambda>n. \<bar>?a - real_of_int n / real_of_int T\<bar>)"
    have n0: "0 < ?n" using T w h by simp
    note b = round_aspect_bounds [OF n0, of "\<lambda>n. \<bar>?a - real_of_int n / real_of_int T\<bar>"]
    have eq: "preserve_aspect_ratio (T, T) (w, h) = Inr (Some (?x, T))"
      using False True T h by (simp add: preserve_aspect_ratio_def Let_def)
    have "?n \<le> real_of_int T" using True T h by (simp add: field_simps mult_left_mono)
    then have "\<lceil>?n\<rceil> \<le> T" by (simp add: ceiling_le_iff)
    with b(2) have xT: "?x \<le> T" by linarith
    have "?n \<le> real_of_int w" using Th w h by (simp add: field_simps mult_right_mono)
    then have "\<lceil>?n\<rceil> \<le> w" by (simp add: ceiling_le_iff)
    with b(2) have xw: "?x \<le> w" by linarith
    have "\<bar>real_of_int ?x - ?n\<bar> * real_of_int h < 1 * real_of_int h"
      using b(3) h by (intro mult_strict_right_mono) simp_all
    then have "\<bar>real_of_int ?x * real_of_int h - real_of_int T * real_of_int w\<bar> < real_of_int h"
      using h by (simp add: abs_mult [symmetric, of _ "real_of_int h", simplified] field_simps)
    then have "\<bar>?x * h - T * w\<bar> < h"
      by (metis (no_types) of_int_abs of_int_diff of_int_less_iff of_int_mult)
    with True have asp: "\<bar>?x * h - T * w\<bar> < max w h" by simp
    from eq b(1) xT xw T Th asp show ?thesis by auto
  next
    case wh: False
    with False have Tw: "T < w" by auto
    let ?n = "real_of_int T / ?a"
    let ?y = "round_aspect ?n (\<lambda>n. if n = 0 then 0 else \<bar>?a - real_of_int T / real_of_int n\<bar>)"
    have n0: "0 < ?n" using T w h by simp
    note b = round_aspect_bounds [OF n0,
        of "\<lambda>n. if n = 0 then 0 else \<bar>?a - real_of_int T / real_of_int n\<bar>"]
    have "\<not> (1 \<ge> ?a)" using wh w h by (simp add: field_simps)
    then have eq: "preserve_aspect_ratio (T, T) (w, h) = Inr (Some (T, ?y))"
      using False T h by (simp add: preserve_aspect_ratio_def Let_def)
    have "?n \<le> real_of_int T" using wh T w h by (simp add: field_simps mult_left_mono)
    then have "\<lceil>?n\<rceil> \<le> T" by (simp add: ceiling_le_iff)
    with b(2) have yT: "?y \<le> T" by linarith
    have "?n \<le> real_of_int h" using Tw w h by (simp add: field_simps mult_right_mono)
    then have "\<lceil>?n\<rceil> \<le> h" by (simp add: ceiling_le_iff)
    with b(2) have yh: "?y \<le> h" by linarith
    have "\<bar>real_of_int ?y - ?n\<bar> * real_of_int w < 1 * real_of_int w"
      using b(3) w by (intro mult_strict_right_mono) simp_all
    then have "\<bar>real_of_int ?y * real_of_int w - real_of_int T * real_of_int h\<bar> < real_of_int w"
      using w by (simp add: abs_mult [symmetric, of _ "real_of_int w", simplified] field_simps)
    then have "\<bar>?y * w - T * h\<bar> < w"
      by (metis (no_types) of_int_abs of_int_diff of_int_less_iff of_int_mult)
    then have "\<bar>T * h - ?y * w\<bar> < w" by (simp add: abs_minus_commute)
    with wh have asp: "\<bar>T * h - ?y * w\<bar> < max w h" by simp
    from eq b(1) yT yh T Tw asp show ?thesis by auto
  qed
qed


lemma thumbnail_square:
  assumes T: "0 < T" and w: "0 < img_width pix" and h: "0 < img_height pix"
  shows "\<exists>img. thumbnail e pix (T, T) = Inr img
           \<and> 1 \<le> img_width img \<and> img_width img \<le> T \<and> img_width img \<le> img_width pix
           \<and> 1 \<le> img_height img \<and> img_height img \<le> T \<and> img_height img \<le> img_height pix
           \<and> \<bar>img_width img * img_height pix - img_height img * img_width pix\<bar>
               < max (img_width pix) (img_height pix)"
  using preserve_aspect_ratio_square [OF T w h]
proof (elim disjE conjE exE)
  assume "preserve_aspect_ratio (T, T) (img_width pix, img_height pix) = Inr None"
    and "img_width pix \<le> T" "img_height pix \<le> T"
  with w h show ?thesis by (simp add: thumbnail_def)
next
  fix x y
  assume p: "preserve_aspect_ratio (T, T) (img_width pix, img_height pix) = Inr (Some (x, y))"
    and b: "1 \<le> x" "x \<le> T" "x \<le> img_width pix" "1 \<le> y" "y \<le> T" "y \<le> img_height pix"
      "\<bar>x * img_height pix - y * img_width pix\<bar> < max (img_width pix) (img_height pix)"
  show ?thesis
  proof (cases "(img_width pix, img_height pix) = (x, y)")
    case True
    with p b show ?thesis by (simp add: thumbnail_def)
  next
    case False
    with p have "thumbnail e pix (T, T)
         = Inr \<lparr>img_width = x, img_height = y, img_samples = resize e pix (x, y)\<rparr>"
      by (simp add: thumbnail_def)
    with b show ?thesis by simp
  qed
qed

text \<open>
  C9. Every successful \<open>render_page\<close> has rasterized the page with zoom 2 when the quality
  is \<open>'high'\<close> and with zoom 1.5 for every other quality. For a pixmap of positive size,
  neither side of the result exceeds 1024 for \<open>'high'\<close> and 768 otherwise, neither side
  exceeds the pixmap's (the image is never enlarged), both sides are at least one pixel,
  and the aspect ratio is kept up to the rounding of one side to a whole pixel: the cross
  product \<open>width * pixmap height - height * pixmap width\<close> is smaller in absolute value
  than the pixmap's longer side.
\<close>

theorem render_page_zoom_and_size:
  assumes "render_page e doc n quality = Inr pd"
  shows "\<exists>pix. get_pixmap e doc (n - 1) (if quality = ''high'' then 2 else 3 / 2) = Inr pix
     \<and> (0 < img_width pix \<and> 0 < img_height pix \<longrightarrow>
          1 \<le> width pd \<and> width pd \<le> (if quality = ''high'' then 1024 else 768)
          \<and> 1 \<le> height pd \<and> height pd \<le> (if quality = ''high'' then 1024 else 768)
          \<and> width pd \<le> img_width pix \<and> height pd \<le> img_height pix
          \<and> \<bar>width pd * img_height pix - height pd * img_width pix\<bar>
              < max (img_width pix) (img_height pix))"
proof -
  let ?zoom = "if quality = ''high'' then 2 else 3 / 2 :: real"
  let ?T = "if quality = ''high'' then 1024 else 768 :: int"
  from assms obtain pix img where
    g: "get_pixmap e doc (n - 1) ?zoom = Inr pix"
    and t: "thumbnail e pix (?T, ?T) = Inr img"
    and d: "width pd = img_width img" "height pd = img_height img"
    by (auto simp: render_page_def Let_def split: sum.splits if_splits)
  have T: "0 < ?T" by simp
  {
    assume "0 < img_width pix" "0 < img_height pix"
    from thumbnail_square [OF T this, of e] t d
    have "1 \<le> width pd \<and> width pd \<le> ?T \<and> 1 \<le> height pd \<and> height pd \<le> ?T
          \<and> width pd \<le> img_width pix \<and> height pd \<le> img_height pix
          \<and> \<bar>width pd * img_height pix - height pd * img_width pix\<bar>
              < max (img_width pix) (img_height pix)"
      by auto
  }
  with g show ?thesis by blast
qed

lemma sample_render:
  "render_page sample_env sample_doc 1 ''high'' =
     Inr \<lparr>page_num = 1, width = 791, height = 1024, image_data = [137, 80, 78, 71],
          image_base64 = ''iVBORw=='', timestamp = 5000\<rparr>"
  by (simp add: eval_defs)

lemma sample_pixmap:
  "get_pixmap sample_env sample_doc (1 - 1) z
     = Inr \<lparr>img_width = \<lfloor>612 * z\<rfloor>, img_height = \<lfloor>792 * z\<rfloor>, img_samples = []\<rparr>"
  by (simp add: sample_env_def sample_doc_def)

theorem render_page_zoom_and_size_witness:
  "get_pixmap sample_env sample_doc 0 2
     = Inr \<lparr>img_width = 1224, img_height = 1584, img_samples = []\<rparr>
   \<and> render_page sample_env sample_doc 1 ''high''
     = Inr \<lparr>page_num = 1, width = 791, height = 1024, image_data = [137, 80, 78, 71],
            image_base64 = ''iVBORw=='', timestamp = 5000\<rparr>
   \<and> (791::int) \<le> 1024 \<and> (1024::int) \<le> 1024 \<and> (791::int) \<le> 1224 \<and> (1024::int) \<le> 1584
   \<and> \<bar>791 * 1584 - 1024 * 1224 :: int\<bar> < max 1224 1584"
  using render_page_zoom_and_size [OF sample_render] sample_render sample_pixmap [of 2]
  by simp

end
